theory Spec2Isabelle
  imports Main "HOL-Library.Sublist" "HOL-Library.AList"
begin

section \<open>JavaScript strings\<close>

text \<open>
  A JavaScript string is a sequence of UTF-16 code units. The model is \<^typ>\<open>string\<close>,
  a list of 8-bit characters, read as the code units U+0000 to U+00FF; the built-in
  functions below are the ECMAScript ones restricted to that range.

  \<^item> White space (\<open>String.prototype.trim\<close>, the regular expression class \<open>\s\<close>) is
    TAB, LF, VT, FF, CR, SPACE and NO-BREAK SPACE in this range.
  \<^item> \<open>toLowerCase\<close> maps A-Z and U+00C0-U+00DE (without U+00D7) to the character 32
    places higher; it never changes the length in this range.
  \<^item> \<open>toUpperCase\<close> maps a-z and U+00E0-U+00FE (without U+00F7) to the character 32
    places lower and U+00DF to \<open>SS\<close>. U+00B5 and U+00FF have upper-case forms beyond
    U+00FF; they are left as they are, which is indistinguishable here, because the
    scripts only compare upper-cased text with ASCII constants.
\<close>

definition isSpace :: "char \<Rightarrow> bool" where
  "isSpace c \<longleftrightarrow> of_char c \<in> {9, 10, 11, 12, 13, 32, 160 :: nat}"

definition str_trim :: "string \<Rightarrow> string" where
  "str_trim s = rev (dropWhile isSpace (rev (dropWhile isSpace s)))"

definition lowerChar :: "char \<Rightarrow> char" where
  "lowerChar c =
     (let n = (of_char c :: nat)
      in if (65 \<le> n \<and> n \<le> 90) \<or> (192 \<le> n \<and> n \<le> 222 \<and> n \<noteq> 215)
         then char_of (n + 32) else c)"

definition toLowerCase :: "string \<Rightarrow> string" where
  "toLowerCase s = map lowerChar s"

definition upperChar :: "char \<Rightarrow> string" where
  "upperChar c =
     (let n = (of_char c :: nat)
      in if n = 223 then ''SS''
         else if (97 \<le> n \<and> n \<le> 122) \<or> (224 \<le> n \<and> n \<le> 254 \<and> n \<noteq> 247)
         then [char_of (n - 32)] else [c])"

definition toUpperCase :: "string \<Rightarrow> string" where
  "toUpperCase s = concat (map upperChar s)"

definition str_startsWith :: "string \<Rightarrow> string \<Rightarrow> bool" where
  "str_startsWith s p \<longleftrightarrow> take (length p) s = p"

definition str_endsWith :: "string \<Rightarrow> string \<Rightarrow> bool" where
  "str_endsWith s p \<longleftrightarrow> length p \<le> length s \<and> drop (length s - length p) s = p"

text \<open>\<open>s.substring(a, b)\<close>: both indices are clamped to the length and swapped when
  \<open>a > b\<close>.\<close>

definition str_substring :: "string \<Rightarrow> nat \<Rightarrow> nat \<Rightarrow> string" where
  "str_substring s a b = (let lo = min a b; hi = max a b in take (hi - lo) (drop lo s))"

text \<open>\<open>s.indexOf(p)\<close>: the first index at which \<open>p\<close> occurs in \<open>s\<close>, or \<open>-1\<close>.\<close>

fun indexOfFrom :: "string \<Rightarrow> string \<Rightarrow> int \<Rightarrow> int" where
  "indexOfFrom [] p i = (if p = [] then i else - 1)"
| "indexOfFrom (c # cs) p i =
     (if str_startsWith (c # cs) p then i else indexOfFrom cs p (i + 1))"

definition str_indexOf :: "string \<Rightarrow> string \<Rightarrow> int" where
  "str_indexOf s p = indexOfFrom s p 0"

definition str_includes :: "string \<Rightarrow> string \<Rightarrow> bool" where
  "str_includes s p \<longleftrightarrow> str_indexOf s p \<noteq> - 1"

text \<open>\<open>s.replace(p, r)\<close> with a string pattern replaces the first occurrence only.\<close>

fun str_replace :: "string \<Rightarrow> string \<Rightarrow> string \<Rightarrow> string" where
  "str_replace [] p r = (if p = [] then r else [])"
| "str_replace (c # cs) p r =
     (if str_startsWith (c # cs) p then r @ drop (length p) (c # cs)
      else c # str_replace cs p r)"

text \<open>\<open>s.split(sep)\<close> for a one-character separator: the pieces between the
  occurrences of the separator, empty pieces included; the empty string gives one empty
  piece. \<open>splitOn\<close> is the same with a class of separators.\<close>

fun splitOn :: "(char \<Rightarrow> bool) \<Rightarrow> string \<Rightarrow> string list" where
  "splitOn P [] = [[]]"
| "splitOn P (c # cs) =
     (if P c then [] # splitOn P cs
      else (case splitOn P cs of [] \<Rightarrow> [[c]] | t # ts \<Rightarrow> (c # t) # ts))"

definition str_split :: "string \<Rightarrow> char \<Rightarrow> string list" where
  "str_split s sep = splitOn (\<lambda>c. c = sep) s"

fun str_join :: "string list \<Rightarrow> string \<Rightarrow> string" where
  "str_join [] sep = []"
| "str_join [x] sep = x"
| "str_join (x # y # ys) sep = x @ sep @ str_join (y # ys) sep"

text \<open>\<open>s.replace(/\s+/g, ' ')\<close>: every maximal run of white space becomes one space.\<close>

function collapseWs :: "string \<Rightarrow> string" where
  "collapseWs [] = []"
| "collapseWs (c # cs) =
     (if isSpace c then CHR '' '' # collapseWs (dropWhile isSpace cs)
      else c # collapseWs cs)"
  by pat_completeness auto
termination
  by (relation "measure length") (auto simp: le_imp_less_Suc length_dropWhile_le)

text \<open>\<open>s.replace(/\+(\S+)/g, '$1')\<close>: scanning from the left, a \<open>+\<close> that is followed by
  a character other than white space is dropped, the maximal run of such characters
  after it is kept as it is (the match is greedy), and the scan goes on behind the run.\<close>

function stripPlusRegex :: "string \<Rightarrow> string" where
  "stripPlusRegex [] = []"
| "stripPlusRegex (c # cs) =
     (if c = CHR ''+'' \<and> cs \<noteq> [] \<and> \<not> isSpace (hd cs)
      then takeWhile (\<lambda>d. \<not> isSpace d) cs @ stripPlusRegex (dropWhile (\<lambda>d. \<not> isSpace d) cs)
      else c # stripPlusRegex cs)"
  by pat_completeness auto
termination
  by (relation "measure length") (auto simp: le_imp_less_Suc length_dropWhile_le)

section \<open>Normalized keywords\<close>

text \<open>The object \<open>{display, raw, matchType}\<close> that \<open>normalizeKeyword\<close> returns.\<close>

record keyword =
  display :: string
  raw :: string
  matchType :: string

text \<open>\<open>trimKeyword(text, open, close)\<close>, the same in both scripts.\<close>

definition trimKeyword :: "string \<Rightarrow> string \<Rightarrow> string \<Rightarrow> string" where
  "trimKeyword text opn cls =
     (if str_startsWith text opn \<and> str_endsWith text cls
      then str_trim (str_substring text (length opn) (length text - length cls))
      else text)"

text \<open>The local \<open>normalizedMatchType\<close> of \<open>normalizeKeyword\<close>, the same in both scripts:
  upper-cased, the first \<open>_MATCH\<close> removed, and \<open>BROAD\<close> when the result is not one of
  the three canonical names.\<close>

definition normalizedMatchType :: "string \<Rightarrow> string" where
  "normalizedMatchType m =
     (let n = str_replace (toUpperCase m) ''_MATCH'' ''''
      in if n \<in> set [''EXACT'', ''PHRASE'', ''BROAD''] then n else ''BROAD'')"

text \<open>The value of \<open>raw\<close> after the wrappers are removed. The MCC script decides on the
  upper-cased original match type, the single-account script on the normalized one.\<close>

definition unwrapped :: "string \<Rightarrow> string \<Rightarrow> string" where
  \<open>unwrapped text m =
     (if str_includes (toUpperCase m) ''PHRASE'' then trimKeyword (str_trim text) ''"'' ''"''
      else if str_includes (toUpperCase m) ''EXACT'' then trimKeyword (str_trim text) ''['' '']''
      else str_trim text)\<close>

definition unwrapped_single :: "string \<Rightarrow> string \<Rightarrow> string" where
  \<open>unwrapped_single text m =
     (if normalizedMatchType m = ''PHRASE'' then trimKeyword (str_trim text) ''"'' ''"''
      else if normalizedMatchType m = ''EXACT'' then trimKeyword (str_trim text) ''['' '']''
      else str_trim text)\<close>

text \<open>The removal of the broad match modifier. MCC script:
  \<open>raw.split(' ').map(word => word.startsWith('+') ? word.substring(1) : word).join(' ')\<close>;
  single-account script: \<open>raw.replace(/\+(\S+)/g, '$1')\<close>.\<close>

definition stripModifiers :: "string \<Rightarrow> string" where
  "stripModifiers r =
     str_join (map (\<lambda>w. if str_startsWith w ''+'' then drop 1 w else w) (str_split r CHR '' ''))
       '' ''"

definition stripModifiers_single :: "string \<Rightarrow> string" where
  "stripModifiers_single r = stripPlusRegex r"

text \<open>\<open>raw.replace(/\s+/g, ' ').trim()\<close> followed by \<open>raw.toLowerCase()\<close>.\<close>

definition squeeze :: "string \<Rightarrow> string" where
  "squeeze r = toLowerCase (str_trim (collapseWs r))"

text \<open>The display text: quotes for PHRASE, brackets for EXACT, nothing for BROAD.\<close>

definition displayOf :: "string \<Rightarrow> string \<Rightarrow> string" where
  \<open>displayOf nmt r =
     (if nmt = ''PHRASE'' then ''"'' @ r @ ''"''
      else if nmt = ''EXACT'' then ''['' @ r @ '']''
      else r)\<close>

text \<open>
  \<open>normalizeKeyword(text, matchType)\<close>. An argument that is not a string (\<open>undefined\<close>,
  \<open>null\<close>) is \<open>None\<close>; the result \<open>null\<close> is \<open>None\<close>. The first definition is the MCC
  script's, the second the single-account script's.
\<close>

definition normalizeKeyword :: "string option \<Rightarrow> string option \<Rightarrow> keyword option" where
  "normalizeKeyword text mt =
     (case text of
        None \<Rightarrow> None
      | Some t \<Rightarrow>
          if t = [] \<or> str_trim t = [] then None
          else (case mt of
                  None \<Rightarrow> None
                | Some m \<Rightarrow>
                    if m = [] then None
                    else let r = squeeze (stripModifiers (unwrapped t m))
                         in if r = [] then None
                            else Some \<lparr>display = displayOf (normalizedMatchType m) r,
                                       raw = r,
                                       matchType = normalizedMatchType m\<rparr>))"

definition normalizeKeyword_single :: "string option \<Rightarrow> string option \<Rightarrow> keyword option" where
  "normalizeKeyword_single text mt =
     (case text of
        None \<Rightarrow> None
      | Some t \<Rightarrow>
          if t = [] \<or> str_trim t = [] then None
          else (case mt of
                  None \<Rightarrow> None
                | Some m \<Rightarrow>
                    if m = [] then None
                    else let r = squeeze (stripModifiers_single (unwrapped_single t m))
                         in if r = [] then None
                            else Some \<lparr>display = displayOf (normalizedMatchType m) r,
                                       raw = r,
                                       matchType = normalizedMatchType m\<rparr>))"

section \<open>The blocking rule\<close>

text \<open>\<open>hasAllTokens\<close> and \<open>isSubsequence\<close> of the MCC script. \<open>!keywordText\<close> is true of
  the empty string.\<close>

definition hasAllTokens :: "string \<Rightarrow> string \<Rightarrow> bool" where
  "hasAllTokens keywordText1 keywordText2 =
     (if keywordText1 = [] then True
      else if keywordText2 = [] then False
      else let tokens1 = filter (\<lambda>t. t \<noteq> []) (str_split keywordText1 CHR '' '')
           in if tokens1 = [] then True
              else let tokenSet2 = set (filter (\<lambda>t. t \<noteq> []) (str_split keywordText2 CHR '' ''))
                   in list_all (\<lambda>token. token \<in> tokenSet2) tokens1)"

definition isSubsequence :: "string \<Rightarrow> string \<Rightarrow> bool" where
  "isSubsequence keywordText1 keywordText2 =
     (if keywordText1 = [] then True
      else if keywordText2 = [] then False
      else str_indexOf ('' '' @ keywordText2 @ '' '') ('' '' @ keywordText1 @ '' '') \<noteq> - 1)"

text \<open>The same two functions in the single-account script.\<close>

definition hasAllTokens_single :: "string \<Rightarrow> string \<Rightarrow> bool" where
  "hasAllTokens_single keywordText1 keywordText2 =
     (if keywordText1 = [] \<or> keywordText2 = [] then False
      else let tokens1 = str_split keywordText1 CHR '' '';
               tokenSet2 = set (str_split keywordText2 CHR '' '')
           in list_all (\<lambda>token. token \<in> tokenSet2) tokens1)"

definition isSubsequence_single :: "string \<Rightarrow> string \<Rightarrow> bool" where
  "isSubsequence_single keywordText1 keywordText2 =
     (if keywordText1 = [] \<or> keywordText2 = [] then False
      else str_indexOf ('' '' @ keywordText2 @ '' '') ('' '' @ keywordText1 @ '' '') \<noteq> - 1)"

text \<open>
  \<open>negativeBlocksPositive(negative, positive)\<close>. The arguments are list entries, which
  may be \<open>null\<close> (\<open>None\<close>). The MCC script tests for that first and answers \<open>false\<close>; the
  single-account script reads \<open>negative.matchType\<close> at once, and a property read on
  \<open>null\<close> throws a TypeError.
\<close>

datatype error = TypeError | FetchError

definition negativeBlocksPositive :: "keyword option \<Rightarrow> keyword option \<Rightarrow> bool" where
  "negativeBlocksPositive negative positive =
     (case (negative, positive) of
        (Some n, Some p) \<Rightarrow>
          if matchType n = ''EXACT'' then raw p = raw n
          else if matchType n = ''PHRASE'' then
            (if matchType p = ''EXACT'' then raw p = raw n
             else isSubsequence (raw n) (raw p))
          else if matchType n = ''BROAD'' then hasAllTokens (raw n) (raw p)
          else False
      | _ \<Rightarrow> False)"

definition negativeBlocksPositive_single ::
  "keyword option \<Rightarrow> keyword option \<Rightarrow> error + bool" where
  "negativeBlocksPositive_single negative positive =
     (case negative of
        None \<Rightarrow> Inl TypeError
      | Some n \<Rightarrow>
          if matchType n = ''EXACT'' then
            (case positive of None \<Rightarrow> Inl TypeError | Some p \<Rightarrow> Inr (raw p = raw n))
          else if matchType n = ''PHRASE'' then
            (case positive of
               None \<Rightarrow> Inl TypeError
             | Some p \<Rightarrow>
                 if matchType p = ''EXACT'' then Inr (raw p = raw n)
                 else Inr (isSubsequence_single (raw n) (raw p)))
          else if matchType n = ''BROAD'' then
            (case positive of
               None \<Rightarrow> Inl TypeError
             | Some p \<Rightarrow> Inr (hasAllTokens_single (raw n) (raw p)))
          else Inr False)"

section \<open>The data cache\<close>

text \<open>
  The cache is a JavaScript object tree. An object used as a dictionary is an
  association list in insertion order; the keys (campaign, ad group and list ids) are
  property names, that is strings, and are taken to be names that \<open>Object.prototype\<close>
  does not define. The lists of keywords hold what the scripts push: keyword objects in
  the MCC script, keyword objects or \<open>null\<close> in the single-account script, so the entry
  types have the element type as a parameter. A name that the data source left out is
  \<open>undefined\<close> (\<open>None\<close>).
\<close>

record 'k adGroupEntry =
  agName :: "string option"
  positives :: "'k list"
  agNegatives :: "'k list"

record listInfo =
  listId :: string
  listName :: string

record 'k campaignEntry =
  cName :: "string option"
  adGroups :: "(string \<times> 'k adGroupEntry) list"
  cNegatives :: "'k list"
  sharedListNegatives :: "listInfo list"

record 'k sharedListEntry =
  slName :: string
  slNegatives :: "'k list"

record cache =
  campaigns :: "(string \<times> keyword campaignEntry) list"
  sharedLists :: "(string \<times> keyword sharedListEntry) list"
  accountNegatives :: "keyword list"

record cache_single =
  campaigns_single :: "(string \<times> keyword option campaignEntry) list"
  sharedLists_single :: "(string \<times> keyword option sharedListEntry) list"

text \<open>
  \<open>for (const key in object)\<close> visits the keys that are array indices (canonical decimal
  numerals below \<open>2^32 - 1\<close>) in ascending numeric order first, and then the other keys
  in insertion order.
\<close>

definition isDigit :: "char \<Rightarrow> bool" where
  "isDigit c \<longleftrightarrow> 48 \<le> (of_char c :: nat) \<and> (of_char c :: nat) \<le> 57"

definition decimalValue :: "string \<Rightarrow> int" where
  "decimalValue s = foldl (\<lambda>n c. 10 * n + (of_char c - 48)) 0 s"

definition isArrayIndex :: "string \<Rightarrow> bool" where
  "isArrayIndex s \<longleftrightarrow>
     s \<noteq> [] \<and> list_all isDigit s \<and> (hd s = CHR ''0'' \<longrightarrow> s = ''0'') \<and>
     decimalValue s < 4294967295"

definition forIn :: "(string \<times> 'a) list \<Rightarrow> (string \<times> 'a) list" where
  "forIn obj =
     sort_key (\<lambda>(k, v). decimalValue k) (filter (\<lambda>(k, v). isArrayIndex k) obj)
       @ filter (\<lambda>(k, v). \<not> isArrayIndex k) obj"

text \<open>A template literal prints \<open>undefined\<close> for a name that is not there.\<close>

definition nameText :: "string option \<Rightarrow> string" where
  "nameText n = (case n of None \<Rightarrow> ''undefined'' | Some s \<Rightarrow> s)"

section \<open>The conflict analyzer of the MCC script\<close>

text \<open>A conflict row is the array \<open>[negative.display, locationString, joined]\<close>.\<close>

type_synonym conflictRow = "string list"

text \<open>The inner loop of \<open>checkLevelForConflicts\<close> over the positives, with the array
  \<open>blockedPositivesDisplay\<close> as accumulator. \<open>negativeBlocksPositive\<close> of the MCC script
  does not throw on list entries, so the \<open>catch\<close> is never entered.\<close>

fun scanPositives :: "keyword \<Rightarrow> keyword list \<Rightarrow> string list \<Rightarrow> string list" where
  "scanPositives negative [] blockedPositivesDisplay = blockedPositivesDisplay"
| "scanPositives negative (positive # rest) blockedPositivesDisplay =
     scanPositives negative rest
       (if negativeBlocksPositive (Some negative) (Some positive)
        then blockedPositivesDisplay @ [display positive]
        else blockedPositivesDisplay)"

fun checkLevelForConflicts ::
  "conflictRow list \<Rightarrow> keyword list \<Rightarrow> keyword list \<Rightarrow> string \<Rightarrow> conflictRow list" where
  "checkLevelForConflicts conflictsOutput [] positiveList locationString = conflictsOutput"
| "checkLevelForConflicts conflictsOutput (negative # rest) positiveList locationString =
     (let blockedPositivesDisplay = scanPositives negative positiveList []
      in checkLevelForConflicts
           (if blockedPositivesDisplay \<noteq> []
            then conflictsOutput
                   @ [[display negative, locationString, str_join blockedPositivesDisplay '', '']]
            else conflictsOutput)
           rest positiveList locationString)"

text \<open>The loop over \<open>campaign.sharedListNegatives\<close> in \<open>findConflicts\<close>.\<close>

fun checkSharedLists ::
  "cache \<Rightarrow> keyword campaignEntry \<Rightarrow> keyword list \<Rightarrow> listInfo list \<Rightarrow> conflictRow list
     \<Rightarrow> conflictRow list" where
  "checkSharedLists c campaign positiveList [] conflictsOutput = conflictsOutput"
| "checkSharedLists c campaign positiveList (info # rest) conflictsOutput =
     (let name = (if listName info = [] then ''List ID '' @ listId info else listName info);
          sharedListLocation =
            ''Shared List: '' @ name @ '' (Applied to Campaign: '' @ nameText (cName campaign) @ '')''
      in checkSharedLists c campaign positiveList rest
           (case map_of (sharedLists c) (listId info) of
              None \<Rightarrow> conflictsOutput
            | Some sharedList \<Rightarrow>
                checkLevelForConflicts conflictsOutput (slNegatives sharedList) positiveList
                  sharedListLocation))"

text \<open>The body of the loop over the ad groups of a campaign.\<close>

definition checkAdGroup ::
  "cache \<Rightarrow> keyword campaignEntry \<Rightarrow> keyword adGroupEntry \<Rightarrow> conflictRow list
     \<Rightarrow> conflictRow list" where
  "checkAdGroup c campaign adGroup conflictsOutput =
     (if positives adGroup = [] then conflictsOutput
      else
        let adGroupLocation =
              ''Ad Group: '' @ nameText (agName adGroup)
                @ '' (Campaign: '' @ nameText (cName campaign) @ '')'';
            campaignLocation = ''Campaign: '' @ nameText (cName campaign);
            out1 = checkLevelForConflicts conflictsOutput (agNegatives adGroup)
                     (positives adGroup) adGroupLocation;
            out2 = checkLevelForConflicts out1 (cNegatives campaign)
                     (positives adGroup) campaignLocation;
            out3 = checkSharedLists c campaign (positives adGroup)
                     (sharedListNegatives campaign) out2
        in checkLevelForConflicts out3 (accountNegatives c) (positives adGroup)
             ''Account Level'')"

fun adGroupLoop ::
  "cache \<Rightarrow> keyword campaignEntry \<Rightarrow> (string \<times> keyword adGroupEntry) list
     \<Rightarrow> conflictRow list \<Rightarrow> conflictRow list" where
  "adGroupLoop c campaign [] conflictsOutput = conflictsOutput"
| "adGroupLoop c campaign ((adGroupId, adGroup) # rest) conflictsOutput =
     adGroupLoop c campaign rest (checkAdGroup c campaign adGroup conflictsOutput)"

fun campaignLoop ::
  "cache \<Rightarrow> (string \<times> keyword campaignEntry) list \<Rightarrow> conflictRow list \<Rightarrow> conflictRow list" where
  "campaignLoop c [] conflictsOutput = conflictsOutput"
| "campaignLoop c ((campaignId, campaign) # rest) conflictsOutput =
     campaignLoop c rest (adGroupLoop c campaign (forIn (adGroups campaign)) conflictsOutput)"

definition findConflicts :: "cache \<Rightarrow> conflictRow list" where
  "findConflicts c = campaignLoop c (forIn (campaigns c)) []"

section \<open>The conflict analyzer of the single-account script\<close>

text \<open>
  Here a list entry may be \<open>null\<close>. The body of the \<open>try\<close> calls \<open>negativeBlocksPositive\<close>
  and reads \<open>positive.display\<close>; the \<open>catch\<close> builds its log line from \<open>negative.display\<close>
  and \<open>positive.display\<close>, so with a \<open>null\<close> entry the handler throws itself and the
  TypeError leaves \<open>checkLevelForConflicts\<close> and \<open>findConflicts\<close>.
\<close>

definition tryBlock_single ::
  "keyword option \<Rightarrow> keyword option \<Rightarrow> string list \<Rightarrow> error + string list" where
  "tryBlock_single negative positive blockedPositivesDisplay =
     (case negativeBlocksPositive_single negative positive of
        Inl e \<Rightarrow> Inl e
      | Inr blocks \<Rightarrow>
          if blocks
          then (case positive of
                  None \<Rightarrow> Inl TypeError
                | Some p \<Rightarrow> Inr (blockedPositivesDisplay @ [display p]))
          else Inr blockedPositivesDisplay)"

fun scanPositives_single ::
  "keyword option \<Rightarrow> keyword option list \<Rightarrow> string list \<Rightarrow> error + string list" where
  "scanPositives_single negative [] blockedPositivesDisplay = Inr blockedPositivesDisplay"
| "scanPositives_single negative (positive # rest) blockedPositivesDisplay =
     (case tryBlock_single negative positive blockedPositivesDisplay of
        Inr blocked \<Rightarrow> scanPositives_single negative rest blocked
      | Inl e \<Rightarrow>
          (case (negative, positive) of
             (Some n, Some p) \<Rightarrow> scanPositives_single negative rest blockedPositivesDisplay
           | _ \<Rightarrow> Inl TypeError))"

fun checkLevelForConflicts_single ::
  "conflictRow list \<Rightarrow> keyword option list \<Rightarrow> keyword option list \<Rightarrow> string
     \<Rightarrow> error + conflictRow list" where
  "checkLevelForConflicts_single conflictsOutput [] positiveList locationString = Inr conflictsOutput"
| "checkLevelForConflicts_single conflictsOutput (negative # rest) positiveList locationString =
     (case scanPositives_single negative positiveList [] of
        Inl e \<Rightarrow> Inl e
      | Inr blockedPositivesDisplay \<Rightarrow>
          if blockedPositivesDisplay \<noteq> []
          then (case negative of
                  None \<Rightarrow> Inl TypeError
                | Some n \<Rightarrow>
                    checkLevelForConflicts_single
                      (conflictsOutput
                         @ [[display n, locationString, str_join blockedPositivesDisplay '', '']])
                      rest positiveList locationString)
          else checkLevelForConflicts_single conflictsOutput rest positiveList locationString)"

fun checkSharedLists_single ::
  "cache_single \<Rightarrow> keyword option campaignEntry \<Rightarrow> keyword option list \<Rightarrow> listInfo list
     \<Rightarrow> conflictRow list \<Rightarrow> error + conflictRow list" where
  "checkSharedLists_single c campaign positiveList [] conflictsOutput = Inr conflictsOutput"
| "checkSharedLists_single c campaign positiveList (info # rest) conflictsOutput =
     (let sharedListLocation =
            ''Shared List: '' @ listName info
              @ '' (Applied to Campaign: '' @ nameText (cName campaign) @ '')''
      in case map_of (sharedLists_single c) (listId info) of
           None \<Rightarrow> checkSharedLists_single c campaign positiveList rest conflictsOutput
         | Some sharedList \<Rightarrow>
             (case checkLevelForConflicts_single conflictsOutput (slNegatives sharedList)
                     positiveList sharedListLocation of
                Inl e \<Rightarrow> Inl e
              | Inr out \<Rightarrow> checkSharedLists_single c campaign positiveList rest out))"

definition checkAdGroup_single ::
  "cache_single \<Rightarrow> keyword option campaignEntry \<Rightarrow> keyword option adGroupEntry
     \<Rightarrow> conflictRow list \<Rightarrow> error + conflictRow list" where
  "checkAdGroup_single c campaign adGroup conflictsOutput =
     (if positives adGroup = [] then Inr conflictsOutput
      else
        let adGroupLocation =
              ''Ad Group: '' @ nameText (agName adGroup)
                @ '' (Campaign: '' @ nameText (cName campaign) @ '')'';
            campaignLocation = ''Campaign: '' @ nameText (cName campaign)
        in case checkLevelForConflicts_single conflictsOutput (agNegatives adGroup)
                  (positives adGroup) adGroupLocation of
             Inl e \<Rightarrow> Inl e
           | Inr out1 \<Rightarrow>
               (case checkLevelForConflicts_single out1 (cNegatives campaign)
                       (positives adGroup) campaignLocation of
                  Inl e \<Rightarrow> Inl e
                | Inr out2 \<Rightarrow>
                    checkSharedLists_single c campaign (positives adGroup)
                      (sharedListNegatives campaign) out2))"

fun adGroupLoop_single ::
  "cache_single \<Rightarrow> keyword option campaignEntry \<Rightarrow> (string \<times> keyword option adGroupEntry) list
     \<Rightarrow> conflictRow list \<Rightarrow> error + conflictRow list" where
  "adGroupLoop_single c campaign [] conflictsOutput = Inr conflictsOutput"
| "adGroupLoop_single c campaign ((adGroupId, adGroup) # rest) conflictsOutput =
     (case checkAdGroup_single c campaign adGroup conflictsOutput of
        Inl e \<Rightarrow> Inl e
      | Inr out \<Rightarrow> adGroupLoop_single c campaign rest out)"

fun campaignLoop_single ::
  "cache_single \<Rightarrow> (string \<times> keyword option campaignEntry) list \<Rightarrow> conflictRow list
     \<Rightarrow> error + conflictRow list" where
  "campaignLoop_single c [] conflictsOutput = Inr conflictsOutput"
| "campaignLoop_single c ((campaignId, campaign) # rest) conflictsOutput =
     (case adGroupLoop_single c campaign (forIn (adGroups campaign)) conflictsOutput of
        Inl e \<Rightarrow> Inl e
      | Inr out \<Rightarrow> campaignLoop_single c rest out)"

definition findConflicts_single :: "cache_single \<Rightarrow> error + conflictRow list" where
  "findConflicts_single c = campaignLoop_single c (forIn (campaigns_single c)) []"

section \<open>The data source and the fetch functions\<close>

text \<open>
  A row of a query result, with every field the scripts read; a field that the row does
  not have is \<open>undefined\<close> (\<open>None\<close>). \<open>criterion_negative\<close> is \<open>Some b\<close> for the boolean \<open>b\<close> and
  \<open>None\<close> for anything else. A value \<open>v\<close> is rejected by \<open>!v\<close> when it is \<open>undefined\<close> or
  the empty string.
\<close>

record row =
  campaign_id :: "string option"
  campaign_name :: "string option"
  ad_group_id :: "string option"
  ad_group_name :: "string option"
  shared_set_id :: "string option"
  shared_set_name :: "string option"
  shared_set :: "string option"
  keyword_text :: "string option"
  keyword_match_type :: "string option"
  criterion_negative :: "bool option"

definition falsy :: "string option \<Rightarrow> bool" where
  "falsy v = (case v of None \<Rightarrow> True | Some s \<Rightarrow> s = [])"

text \<open>
  The result of \<open>AdsApp.search(query)\<close> and of iterating it: \<open>Inl\<close> when a statement of
  the fetch function outside its per-row \<open>try\<close> throws (the search itself, \<open>hasNext\<close>;
  in the single-account script also the same query run with \<open>LIMIT 1\<close> before), otherwise
  the rows, where a row is \<open>Inl\<close> when \<open>report.next()\<close> throws inside the \<open>try\<close>: the
  \<open>catch\<close> logs it and the loop goes on.
\<close>

type_synonym queryResult = "error + (error + row) list"

record dataSource =
  keywordView :: queryResult
  campaignCriterion :: queryResult
  sharedCriterion :: queryResult
  campaignSharedSet :: queryResult
  customerNegativeCriterion :: queryResult

fun rowLoop :: "('c \<Rightarrow> row \<Rightarrow> 'c) \<Rightarrow> 'c \<Rightarrow> (error + row) list \<Rightarrow> 'c" where
  "rowLoop step c [] = c"
| "rowLoop step c (Inl e # rest) = rowLoop step c rest"
| "rowLoop step c (Inr r # rest) = rowLoop step (step c r) rest"

definition runQuery :: "('c \<Rightarrow> row \<Rightarrow> 'c) \<Rightarrow> queryResult \<Rightarrow> 'c \<Rightarrow> error + 'c" where
  "runQuery step q c = (case q of Inl e \<Rightarrow> Inl e | Inr rows \<Rightarrow> Inr (rowLoop step c rows))"

text \<open>\<open>if (!obj[key]) obj[key] = value\<close>, and a change of the entry under a key.\<close>

definition ensureKey :: "string \<Rightarrow> 'a \<Rightarrow> (string \<times> 'a) list \<Rightarrow> (string \<times> 'a) list" where
  "ensureKey k v obj = (if map_of obj k = None then obj @ [(k, v)] else obj)"

definition modifyKey :: "string \<Rightarrow> ('a \<Rightarrow> 'a) \<Rightarrow> (string \<times> 'a) list \<Rightarrow> (string \<times> 'a) list" where
  "modifyKey k f obj = map (\<lambda>(k', v). if k' = k then (k', f v) else (k', v)) obj"

text \<open>The entries of both scripts start empty.\<close>

definition newCampaign :: "string option \<Rightarrow> 'k campaignEntry" where
  "newCampaign n = \<lparr>cName = n, adGroups = [], cNegatives = [], sharedListNegatives = []\<rparr>"

definition newAdGroup :: "string option \<Rightarrow> 'k adGroupEntry" where
  "newAdGroup n = \<lparr>agName = n, positives = [], agNegatives = []\<rparr>"

text \<open>\<open>push\<close> of a keyword into the negatives or positives of an ad group: negatives when
  the flag is \<open>true\<close>, positives when it is \<open>false\<close> or not a boolean.\<close>

definition pushAdGroupKeyword ::
  "string \<Rightarrow> string \<Rightarrow> bool option \<Rightarrow> 'k \<Rightarrow> (string \<times> 'k campaignEntry) list
     \<Rightarrow> (string \<times> 'k campaignEntry) list" where
  "pushAdGroupKeyword cid gid isNegative k camps =
     modifyKey cid
       (\<lambda>camp. camp\<lparr>adGroups :=
          modifyKey gid
            (\<lambda>ag. if isNegative = Some True then ag\<lparr>agNegatives := agNegatives ag @ [k]\<rparr>
                   else ag\<lparr>positives := positives ag @ [k]\<rparr>)
            (adGroups camp)\<rparr>)
       camps"

definition ensureAdGroup ::
  "string \<Rightarrow> string option \<Rightarrow> string \<Rightarrow> string option \<Rightarrow> (string \<times> 'k campaignEntry) list
     \<Rightarrow> (string \<times> 'k campaignEntry) list" where
  "ensureAdGroup cid cname gid gname camps =
     modifyKey cid
       (\<lambda>camp. camp\<lparr>adGroups := ensureKey gid (newAdGroup gname) (adGroups camp)\<rparr>)
       (ensureKey cid (newCampaign cname) camps)"

subsection \<open>MCC script\<close>

text \<open>One pass of the \<open>while\<close> loop of \<open>fetchKeywords\<close>: the campaign and ad group
  entries are made before the keyword is normalized, and a keyword whose normalization
  fails is skipped.\<close>

definition keywordStep :: "cache \<Rightarrow> row \<Rightarrow> cache" where
  "keywordStep c r =
     (if falsy (campaign_id r) \<or> falsy (ad_group_id r) \<or> falsy (keyword_text r)
         \<or> falsy (keyword_match_type r)
      then c
      else
        (case (campaign_id r, ad_group_id r) of
           (Some cid, Some gid) \<Rightarrow>
             (let camps = ensureAdGroup cid (campaign_name r) gid (ad_group_name r) (campaigns c)
              in case normalizeKeyword (keyword_text r) (keyword_match_type r) of
                   None \<Rightarrow> c\<lparr>campaigns := camps\<rparr>
                 | Some normalizedKeyword \<Rightarrow>
                     c\<lparr>campaigns :=
                         pushAdGroupKeyword cid gid (criterion_negative r) normalizedKeyword camps\<rparr>)
         | _ \<Rightarrow> c))"

definition fetchKeywords :: "queryResult \<Rightarrow> cache \<Rightarrow> error + cache" where
  "fetchKeywords q c = runQuery keywordStep q c"

definition campaignNegativeStep :: "cache \<Rightarrow> row \<Rightarrow> cache" where
  "campaignNegativeStep c r =
     (if falsy (campaign_id r) \<or> falsy (keyword_text r) \<or> falsy (keyword_match_type r) then c
      else
        (case campaign_id r of
           Some cid \<Rightarrow>
             (if map_of (campaigns c) cid = None then c
              else case normalizeKeyword (keyword_text r) (keyword_match_type r) of
                     None \<Rightarrow> c
                   | Some normalizedKeyword \<Rightarrow>
                       c\<lparr>campaigns :=
                           modifyKey cid
                             (\<lambda>camp. camp\<lparr>cNegatives := cNegatives camp @ [normalizedKeyword]\<rparr>)
                             (campaigns c)\<rparr>)
         | None \<Rightarrow> c))"

definition fetchCampaignNegatives :: "queryResult \<Rightarrow> cache \<Rightarrow> error + cache" where
  "fetchCampaignNegatives q c = runQuery campaignNegativeStep q c"

definition sharedKeywordStep :: "cache \<Rightarrow> row \<Rightarrow> cache" where
  "sharedKeywordStep c r =
     (if falsy (shared_set_id r) \<or> falsy (shared_set_name r) \<or> falsy (keyword_text r)
         \<or> falsy (keyword_match_type r)
      then c
      else
        (case (shared_set_id r, shared_set_name r) of
           (Some lid, Some lname) \<Rightarrow>
             (let lists = ensureKey lid \<lparr>slName = lname, slNegatives = []\<rparr> (sharedLists c)
              in case normalizeKeyword (keyword_text r) (keyword_match_type r) of
                   None \<Rightarrow> c\<lparr>sharedLists := lists\<rparr>
                 | Some normalizedKeyword \<Rightarrow>
                     c\<lparr>sharedLists :=
                         modifyKey lid
                           (\<lambda>l. l\<lparr>slNegatives := slNegatives l @ [normalizedKeyword]\<rparr>) lists\<rparr>)
         | _ \<Rightarrow> c))"

text \<open>\<open>sharedSetResourceName.match(/sharedSets\/(\d+)$/)\<close>: the digits at the end of the
  resource name, when there are some and \<open>sharedSets/\<close> stands in front of them.\<close>

definition extractListId :: "string \<Rightarrow> string option" where
  "extractListId s =
     (let digits = rev (takeWhile isDigit (rev s));
          front = take (length s - length digits) s
      in if digits \<noteq> [] \<and> str_endsWith front ''sharedSets/'' then Some digits else None)"

text \<open>One pass of the loop over the associations: kept when the campaign and the list
  are in the cache and the campaign does not have the list yet.\<close>

definition associationStep :: "cache \<Rightarrow> row \<Rightarrow> cache" where
  "associationStep c r =
     (if falsy (campaign_id r) \<or> falsy (shared_set r) then c
      else
        (case (campaign_id r, shared_set r) of
           (Some cid, Some resourceName) \<Rightarrow>
             (case extractListId resourceName of
                None \<Rightarrow> c
              | Some lid \<Rightarrow>
                  (case (map_of (campaigns c) cid, map_of (sharedLists c) lid) of
                     (Some camp, Some l) \<Rightarrow>
                       c\<lparr>campaigns :=
                           modifyKey cid
                             (\<lambda>camp. if list_ex (\<lambda>item. listId item = lid)
                                          (sharedListNegatives camp)
                                      then camp
                                      else camp\<lparr>sharedListNegatives :=
                                             sharedListNegatives camp
                                               @ [\<lparr>listId = lid, listName = slName l\<rparr>]\<rparr>)
                             (campaigns c)\<rparr>
                   | _ \<Rightarrow> c))
         | _ \<Rightarrow> c))"

definition fetchSharedNegativeLists :: "queryResult \<Rightarrow> queryResult \<Rightarrow> cache \<Rightarrow> error + cache" where
  "fetchSharedNegativeLists listQuery campaignListQuery c =
     (case runQuery sharedKeywordStep listQuery c of
        Inl e \<Rightarrow> Inl e
      | Inr c' \<Rightarrow> runQuery associationStep campaignListQuery c')"

definition accountNegativeStep :: "cache \<Rightarrow> row \<Rightarrow> cache" where
  "accountNegativeStep c r =
     (if falsy (keyword_text r) \<or> falsy (keyword_match_type r) then c
      else case normalizeKeyword (keyword_text r) (keyword_match_type r) of
             None \<Rightarrow> c
           | Some normalizedKeyword \<Rightarrow>
               c\<lparr>accountNegatives := accountNegatives c @ [normalizedKeyword]\<rparr>)"

definition fetchAccountNegatives :: "queryResult \<Rightarrow> cache \<Rightarrow> error + cache" where
  "fetchAccountNegatives q c = runQuery accountNegativeStep q c"

text \<open>\<open>buildDataCache\<close>: one \<open>try\<close> around the four fetch calls, \<open>return null\<close> in its
  \<open>catch\<close>.\<close>

definition emptyCache :: cache where
  "emptyCache = \<lparr>campaigns = [], sharedLists = [], accountNegatives = []\<rparr>"

definition buildDataCache :: "dataSource \<Rightarrow> cache option" where
  "buildDataCache ds =
     (case fetchKeywords (keywordView ds) emptyCache of
        Inl e \<Rightarrow> None
      | Inr c1 \<Rightarrow>
          (case fetchCampaignNegatives (campaignCriterion ds) c1 of
             Inl e \<Rightarrow> None
           | Inr c2 \<Rightarrow>
               (case fetchSharedNegativeLists (sharedCriterion ds) (campaignSharedSet ds) c2 of
                  Inl e \<Rightarrow> None
                | Inr c3 \<Rightarrow>
                    (case fetchAccountNegatives (customerNegativeCriterion ds) c3 of
                       Inl e \<Rightarrow> None
                     | Inr c4 \<Rightarrow> Some c4))))"

text \<open>The part of \<open>main\<close> that decides whether an account is analyzed: no cache, no
  analysis (\<open>None\<close>); otherwise the conflict rows of the account.\<close>

definition analyzeAccount :: "dataSource \<Rightarrow> conflictRow list option" where
  "analyzeAccount ds =
     (case buildDataCache ds of None \<Rightarrow> None | Some c \<Rightarrow> Some (findConflicts c))"

subsection \<open>Single-account script\<close>

text \<open>The same loops, except that the result of \<open>normalizeKeyword\<close> is pushed as it is,
  \<open>null\<close> included, and that there are no account-level negatives.\<close>

definition keywordStep_single :: "cache_single \<Rightarrow> row \<Rightarrow> cache_single" where
  "keywordStep_single c r =
     (if falsy (campaign_id r) \<or> falsy (ad_group_id r) \<or> falsy (keyword_text r)
         \<or> falsy (keyword_match_type r)
      then c
      else
        (case (campaign_id r, ad_group_id r) of
           (Some cid, Some gid) \<Rightarrow>
             c\<lparr>campaigns_single :=
                 pushAdGroupKeyword cid gid (criterion_negative r)
                   (normalizeKeyword_single (keyword_text r) (keyword_match_type r))
                   (ensureAdGroup cid (campaign_name r) gid (ad_group_name r)
                      (campaigns_single c))\<rparr>
         | _ \<Rightarrow> c))"

definition fetchKeywords_single :: "queryResult \<Rightarrow> cache_single \<Rightarrow> error + cache_single" where
  "fetchKeywords_single q c = runQuery keywordStep_single q c"

definition campaignNegativeStep_single :: "cache_single \<Rightarrow> row \<Rightarrow> cache_single" where
  "campaignNegativeStep_single c r =
     (if falsy (campaign_id r) \<or> falsy (keyword_text r) \<or> falsy (keyword_match_type r) then c
      else
        (case campaign_id r of
           Some cid \<Rightarrow>
             (if map_of (campaigns_single c) cid = None then c
              else c\<lparr>campaigns_single :=
                       modifyKey cid
                         (\<lambda>camp. camp\<lparr>cNegatives :=
                            cNegatives camp
                              @ [normalizeKeyword_single (keyword_text r) (keyword_match_type r)]\<rparr>)
                         (campaigns_single c)\<rparr>)
         | None \<Rightarrow> c))"

definition fetchCampaignNegatives_single ::
  "queryResult \<Rightarrow> cache_single \<Rightarrow> error + cache_single" where
  "fetchCampaignNegatives_single q c = runQuery campaignNegativeStep_single q c"

definition sharedKeywordStep_single :: "cache_single \<Rightarrow> row \<Rightarrow> cache_single" where
  "sharedKeywordStep_single c r =
     (if falsy (shared_set_id r) \<or> falsy (shared_set_name r) \<or> falsy (keyword_text r)
         \<or> falsy (keyword_match_type r)
      then c
      else
        (case (shared_set_id r, shared_set_name r) of
           (Some lid, Some lname) \<Rightarrow>
             c\<lparr>sharedLists_single :=
                 modifyKey lid
                   (\<lambda>l. l\<lparr>slNegatives :=
                      slNegatives l
                        @ [normalizeKeyword_single (keyword_text r) (keyword_match_type r)]\<rparr>)
                   (ensureKey lid \<lparr>slName = lname, slNegatives = []\<rparr> (sharedLists_single c))\<rparr>
         | _ \<Rightarrow> c))"

definition associationStep_single :: "cache_single \<Rightarrow> row \<Rightarrow> cache_single" where
  "associationStep_single c r =
     (if falsy (campaign_id r) \<or> falsy (shared_set r) then c
      else
        (case (campaign_id r, shared_set r) of
           (Some cid, Some resourceName) \<Rightarrow>
             (case extractListId resourceName of
                None \<Rightarrow> c
              | Some lid \<Rightarrow>
                  (case (map_of (campaigns_single c) cid, map_of (sharedLists_single c) lid) of
                     (Some camp, Some l) \<Rightarrow>
                       c\<lparr>campaigns_single :=
                           modifyKey cid
                             (\<lambda>camp. if list_ex (\<lambda>item. listId item = lid)
                                          (sharedListNegatives camp)
                                      then camp
                                      else camp\<lparr>sharedListNegatives :=
                                             sharedListNegatives camp
                                               @ [\<lparr>listId = lid, listName = slName l\<rparr>]\<rparr>)
                             (campaigns_single c)\<rparr>
                   | _ \<Rightarrow> c))
         | _ \<Rightarrow> c))"

definition fetchSharedNegativeLists_single ::
  "queryResult \<Rightarrow> queryResult \<Rightarrow> cache_single \<Rightarrow> error + cache_single" where
  "fetchSharedNegativeLists_single listQuery campaignListQuery c =
     (case runQuery sharedKeywordStep_single listQuery c of
        Inl e \<Rightarrow> Inl e
      | Inr c' \<Rightarrow> runQuery associationStep_single campaignListQuery c')"

definition emptyCache_single :: cache_single where
  "emptyCache_single = \<lparr>campaigns_single = [], sharedLists_single = []\<rparr>"

definition buildDataCache_single :: "dataSource \<Rightarrow> cache_single option" where
  "buildDataCache_single ds =
     (case fetchKeywords_single (keywordView ds) emptyCache_single of
        Inl e \<Rightarrow> None
      | Inr c1 \<Rightarrow>
          (case fetchCampaignNegatives_single (campaignCriterion ds) c1 of
             Inl e \<Rightarrow> None
           | Inr c2 \<Rightarrow>
               (case fetchSharedNegativeLists_single (sharedCriterion ds)
                       (campaignSharedSet ds) c2 of
                  Inl e \<Rightarrow> None
                | Inr c3 \<Rightarrow> Some c3)))"

text \<open>\<open>main\<close> of the single-account script: without a cache it returns at once;
  \<open>findConflicts\<close> is not inside a \<open>try\<close>, so its TypeError ends the script.\<close>

definition analyzeAccount_single :: "dataSource \<Rightarrow> (error + conflictRow list) option" where
  "analyzeAccount_single ds =
     (case buildDataCache_single ds of
        None \<Rightarrow> None
      | Some c \<Rightarrow> Some (findConflicts_single c))"

section \<open>Notions used to state the properties\<close>

text \<open>Text in which white space occurs only as single space characters between other
  characters or at the ends: a white-space character is a space and is not followed by
  white space.\<close>

fun singleSpaced :: "string \<Rightarrow> bool" where
  "singleSpaced [] = True"
| "singleSpaced [c] = (isSpace c \<longrightarrow> c = CHR '' '')"
| "singleSpaced (a # b # cs) =
     ((isSpace a \<longrightarrow> a = CHR '' '' \<and> \<not> isSpace b) \<and> singleSpaced (b # cs))"

text \<open>The raw text of the data model: not empty, trimmed, white space collapsed to
  single spaces, lower case.\<close>

definition cleanText :: "string \<Rightarrow> bool" where
  "cleanText r \<longleftrightarrow> r \<noteq> [] \<and> str_trim r = r \<and> collapseWs r = r \<and> toLowerCase r = r"

text \<open>A normalized keyword: a canonical match type, a clean raw text, and the display
  text that belongs to them. Every result of \<open>normalizeKeyword\<close> is one
  (\<open>normalizeKeyword_isNormalized\<close> and \<open>normalizeKeyword_single_isNormalized\<close> below).\<close>

definition isNormalized :: "keyword \<Rightarrow> bool" where
  "isNormalized k \<longleftrightarrow>
     matchType k \<in> set [''EXACT'', ''PHRASE'', ''BROAD''] \<and> cleanText (raw k) \<and>
     display k = displayOf (matchType k) (raw k)"

text \<open>The tokens of a text: its maximal runs of characters other than white space.\<close>

definition wsTokens :: "string \<Rightarrow> string list" where
  "wsTokens s = filter (\<lambda>t. t \<noteq> []) (splitOn isSpace s)"

definition isUpperCode :: "nat \<Rightarrow> bool" where
  "isUpperCode n \<longleftrightarrow> (65 \<le> n \<and> n \<le> 90) \<or> (192 \<le> n \<and> n \<le> 222 \<and> n \<noteq> 215)"

definition isSpaceCode :: "nat \<Rightarrow> bool" where
  "isSpaceCode n \<longleftrightarrow> n \<in> {9, 10, 11, 12, 13, 32, 160}"

text \<open>Empty or white space only.\<close>

definition blank :: "string \<Rightarrow> bool" where
  "blank s = list_all isSpace s"

text \<open>A match type that is, after upper-casing and with the first \<open>_MATCH\<close> removed, one
  of the three canonical names.\<close>

definition parseableMatchType :: "string \<Rightarrow> bool" where
  "parseableMatchType m \<longleftrightarrow>
     str_replace (toUpperCase m) ''_MATCH'' '''' \<in> set [''EXACT'', ''PHRASE'', ''BROAD'']"

text \<open>The spellings of the match type that the query language and the scripts' comments
  name, in any case of the letters.\<close>

definition apiMatchType :: "string \<Rightarrow> bool" where
  "apiMatchType m \<longleftrightarrow>
     toUpperCase m \<in> set [''EXACT'', ''PHRASE'', ''BROAD'',
                           ''EXACT_MATCH'', ''PHRASE_MATCH'', ''BROAD_MATCH'']"



text \<open>A text in which \<open>+\<close> occurs only as a broad match modifier: each piece between
  spaces either has no \<open>+\<close>, or begins with its only \<open>+\<close>, directly followed by a
  character that is not white space.\<close>

definition plainModifier :: "string \<Rightarrow> bool" where
  "plainModifier w \<longleftrightarrow>
     CHR ''+'' \<notin> set w \<or>
     (hd w = CHR ''+'' \<and> tl w \<noteq> [] \<and> \<not> isSpace (hd (tl w)) \<and> CHR ''+'' \<notin> set (tl w))"

definition modifiersPlain :: "string \<Rightarrow> bool" where
  "modifiersPlain u = list_all plainModifier (str_split u CHR '' '')"

definition dropPlus :: "string \<Rightarrow> string" where
  "dropPlus w = (if str_startsWith w ''+'' then drop 1 w else w)"

subsection \<open>What the analyzer returns\<close>

text \<open>The display texts of the positives that a negative blocks, in the order of the
  list and with repetitions; the rows of one level: one row for each entry of the list of
  negatives that blocks at least one positive, in the order of the list.\<close>

definition blockedBy :: "keyword \<Rightarrow> keyword list \<Rightarrow> string list" where
  "blockedBy n ps = map display (filter (\<lambda>p. negativeBlocksPositive (Some n) (Some p)) ps)"

definition levelRows :: "keyword list \<Rightarrow> keyword list \<Rightarrow> string \<Rightarrow> conflictRow list" where
  "levelRows ns ps loc =
     map (\<lambda>n. [display n, loc, str_join (blockedBy n ps) '', ''])
       (filter (\<lambda>n. list_ex (\<lambda>p. negativeBlocksPositive (Some n) (Some p)) ps) ns)"

text \<open>The rows of the shared lists of a campaign, of an ad group (nothing when it has no
  positives, otherwise its four levels in the order of the script) and of a campaign.\<close>

definition sharedListLocation :: "keyword campaignEntry \<Rightarrow> listInfo \<Rightarrow> string" where
  "sharedListLocation campaign info =
     ''Shared List: '' @ (if listName info = [] then ''List ID '' @ listId info else listName info)
       @ '' (Applied to Campaign: '' @ nameText (cName campaign) @ '')''"

definition sharedRows :: "cache \<Rightarrow> keyword campaignEntry \<Rightarrow> keyword list \<Rightarrow> conflictRow list" where
  "sharedRows c campaign ps =
     concat (map (\<lambda>info. case map_of (sharedLists c) (listId info) of
                           None \<Rightarrow> []
                         | Some l \<Rightarrow> levelRows (slNegatives l) ps (sharedListLocation campaign info))
               (sharedListNegatives campaign))"

definition adGroupRows :: "cache \<Rightarrow> keyword campaignEntry \<Rightarrow> keyword adGroupEntry \<Rightarrow> conflictRow list" where
  "adGroupRows c campaign adGroup =
     (if positives adGroup = [] then []
      else levelRows (agNegatives adGroup) (positives adGroup)
             (''Ad Group: '' @ nameText (agName adGroup)
                @ '' (Campaign: '' @ nameText (cName campaign) @ '')'')
           @ levelRows (cNegatives campaign) (positives adGroup)
               (''Campaign: '' @ nameText (cName campaign))
           @ sharedRows c campaign (positives adGroup)
           @ levelRows (accountNegatives c) (positives adGroup) ''Account Level'')"

definition campaignRows :: "cache \<Rightarrow> keyword campaignEntry \<Rightarrow> conflictRow list" where
  "campaignRows c campaign =
     concat (map (\<lambda>(gid, adGroup). adGroupRows c campaign adGroup) (forIn (adGroups campaign)))"

text \<open>The rows of a result that have a given negative display text and location.\<close>

definition recordsFor :: "string \<Rightarrow> string \<Rightarrow> conflictRow list \<Rightarrow> conflictRow list" where
  "recordsFor negativeDisplay location rows = filter (\<lambda>r. take 2 r = [negativeDisplay, location]) rows"

text \<open>A cache without the ad groups that have no positives.\<close>

definition hasPositives :: "string \<times> 'k adGroupEntry \<Rightarrow> bool" where
  "hasPositives e \<longleftrightarrow> positives (snd e) \<noteq> []"

definition withoutEmptyAdGroups :: "'k campaignEntry \<Rightarrow> 'k campaignEntry" where
  "withoutEmptyAdGroups campaign = campaign\<lparr>adGroups := filter hasPositives (adGroups campaign)\<rparr>"

definition dropEmptyAdGroups :: "cache \<Rightarrow> cache" where
  "dropEmptyAdGroups c =
     c\<lparr>campaigns := map (\<lambda>(cid, campaign). (cid, withoutEmptyAdGroups campaign)) (campaigns c)\<rparr>"

definition dropEmptyAdGroups_single :: "cache_single \<Rightarrow> cache_single" where
  "dropEmptyAdGroups_single c =
     c\<lparr>campaigns_single :=
         map (\<lambda>(cid, campaign). (cid, withoutEmptyAdGroups campaign)) (campaigns_single c)\<rparr>"

text \<open>A cache of the MCC script in which every stored keyword is a normalized keyword.\<close>

definition adGroupNormalized :: "keyword adGroupEntry \<Rightarrow> bool" where
  "adGroupNormalized ag \<longleftrightarrow>
     list_all isNormalized (positives ag) \<and> list_all isNormalized (agNegatives ag)"

definition campaignNormalized :: "keyword campaignEntry \<Rightarrow> bool" where
  "campaignNormalized campaign \<longleftrightarrow>
     list_all isNormalized (cNegatives campaign) \<and>
     list_all (\<lambda>(gid, ag). adGroupNormalized ag) (adGroups campaign)"

definition cacheNormalized :: "cache \<Rightarrow> bool" where
  "cacheNormalized c \<longleftrightarrow>
     list_all (\<lambda>(cid, campaign). campaignNormalized campaign) (campaigns c) \<and>
     list_all (\<lambda>(lid, l). list_all isNormalized (slNegatives l)) (sharedLists c) \<and>
     list_all isNormalized (accountNegatives c)"


subsection \<open>An example account\<close>

text \<open>
  One campaign \<open>Summer\<close> (id 7) with two ad groups: \<open>Men\<close> (id 1) with the exact keyword
  \<open>shoes\<close>, and \<open>Women\<close> (id 2) with the broad keyword \<open>red shoes\<close>; the campaign
  negative \<open>shoes\<close> (broad); the shared list \<open>L\<close> (id 55) with the phrase negative \<open>red\<close>,
  applied to the campaign. \<open>exampleSourceBrackets\<close> has one more keyword row in ad group
  \<open>Women\<close>: the text \<open>[]\<close> with match type EXACT, which \<open>normalizeKeyword\<close> rejects.
\<close>

definition emptyRow :: row where
  "emptyRow =
     \<lparr>campaign_id = None, campaign_name = None, ad_group_id = None, ad_group_name = None,
      shared_set_id = None, shared_set_name = None, shared_set = None, keyword_text = None,
      keyword_match_type = None, criterion_negative = None\<rparr>"

definition keywordRow :: "string \<Rightarrow> string \<Rightarrow> string \<Rightarrow> string \<Rightarrow> bool \<Rightarrow> row" where
  "keywordRow gid gname t m isNegative =
     emptyRow\<lparr>campaign_id := Some ''7'', campaign_name := Some ''Summer'',
               ad_group_id := Some gid, ad_group_name := Some gname, keyword_text := Some t,
               keyword_match_type := Some m, criterion_negative := Some isNegative\<rparr>"

definition exampleSource :: dataSource where
  "exampleSource =
     \<lparr>keywordView =
        Inr [Inr (keywordRow ''1'' ''Men'' ''shoes'' ''EXACT'' False),
             Inr (keywordRow ''2'' ''Women'' ''red shoes'' ''BROAD'' False)],
      campaignCriterion =
        Inr [Inr (emptyRow\<lparr>campaign_id := Some ''7'', keyword_text := Some ''shoes'',
                           keyword_match_type := Some ''BROAD''\<rparr>)],
      sharedCriterion =
        Inr [Inr (emptyRow\<lparr>shared_set_id := Some ''55'', shared_set_name := Some ''L'',
                           keyword_text := Some ''red'',
                           keyword_match_type := Some ''PHRASE''\<rparr>)],
      campaignSharedSet =
        Inr [Inr (emptyRow\<lparr>campaign_id := Some ''7'',
                           shared_set := Some ''customers/1/sharedSets/55''\<rparr>)],
      customerNegativeCriterion = Inr []\<rparr>"

definition exampleSourceBrackets :: dataSource where
  "exampleSourceBrackets =
     exampleSource\<lparr>keywordView :=
       Inr [Inr (keywordRow ''1'' ''Men'' ''shoes'' ''EXACT'' False),
            Inr (keywordRow ''2'' ''Women'' ''red shoes'' ''BROAD'' False),
            Inr (keywordRow ''2'' ''Women'' ''[]'' ''EXACT'' False)]\<rparr>"

section \<open>Lemmas about the string functions\<close>

lemma startsWith_prefix: "str_startsWith s p \<longleftrightarrow> prefix p s"
  unfolding str_startsWith_def
  by (metis prefix_def append_take_drop_id append_eq_conv_conj)

lemma indexOfFrom_sublist: "0 \<le> i \<Longrightarrow> indexOfFrom s p i \<noteq> - 1 \<longleftrightarrow> sublist p s"
proof (induction s arbitrary: i)
  case Nil
  then show ?case by auto
next
  case (Cons c cs)
  have "indexOfFrom cs p (i + 1) \<noteq> - 1 \<longleftrightarrow> sublist p cs"
    using Cons.prems by (intro Cons.IH) simp
  then show ?case
    using Cons.prems by (auto simp: startsWith_prefix sublist_Cons_right)
qed

lemma indexOf_sublist: "str_indexOf s p \<noteq> - 1 \<longleftrightarrow> sublist p s"
  unfolding str_indexOf_def by (rule indexOfFrom_sublist) simp

lemma isSpace_space [simp]: "isSpace CHR '' ''"
  by (simp add: isSpace_def)

lemma collapseWs_hd: "s \<noteq> [] \<Longrightarrow> \<not> isSpace (hd s) \<Longrightarrow> collapseWs s \<noteq> [] \<and> hd (collapseWs s) = hd s"
  by (cases s) auto

lemma dropWhile_hd: "dropWhile P s \<noteq> [] \<Longrightarrow> \<not> P (hd (dropWhile P s))"
  using hd_dropWhile by blast

lemma singleSpaced_Cons: "singleSpaced (a # s) \<longleftrightarrow> (isSpace a \<longrightarrow> a = CHR '' '' \<and> (s \<noteq> [] \<longrightarrow> \<not> isSpace (hd s))) \<and> singleSpaced s"
  by (cases s) auto

lemma singleSpaced_collapseWs: "singleSpaced (collapseWs s)"
proof (induction s rule: collapseWs.induct)
  case 1
  then show ?case by simp
next
  case (2 c cs)
  show ?case
  proof (cases "isSpace c")
    case True
    let ?d = "dropWhile isSpace cs"
    have "collapseWs ?d \<noteq> [] \<Longrightarrow> \<not> isSpace (hd (collapseWs ?d))"
    proof -
      assume ne: "collapseWs ?d \<noteq> []"
      then have "?d \<noteq> []" by (metis collapseWs.simps(1))
      then have "\<not> isSpace (hd ?d)" by (rule dropWhile_hd)
      with \<open>?d \<noteq> []\<close> show ?thesis using collapseWs_hd by metis
    qed
    with True 2 show ?thesis by (simp add: singleSpaced_Cons)
  next
    case False
    with 2 show ?thesis by (simp add: singleSpaced_Cons)
  qed
qed

lemma collapseWs_singleSpaced: "singleSpaced s \<Longrightarrow> collapseWs s = s"
proof (induction s rule: singleSpaced.induct)
  case 1
  then show ?case by simp
next
  case (2 c)
  then show ?case by simp
next
  case (3 a b cs)
  then show ?case by (cases "isSpace a") auto
qed

lemma collapseWs_fix_iff: "collapseWs s = s \<longleftrightarrow> singleSpaced s"
  by (metis singleSpaced_collapseWs collapseWs_singleSpaced)

lemma singleSpaced_append_right: "singleSpaced (xs @ ys) \<Longrightarrow> singleSpaced ys"
  by (induction xs) (auto simp: singleSpaced_Cons)

lemma singleSpaced_append_left: "singleSpaced (xs @ ys) \<Longrightarrow> singleSpaced xs"
  by (induction xs) (auto simp: singleSpaced_Cons hd_append split: if_splits)

lemma singleSpaced_dropWhile: "singleSpaced s \<Longrightarrow> singleSpaced (dropWhile P s)"
  by (metis singleSpaced_append_right takeWhile_dropWhile_id)

lemma singleSpaced_rev_dropWhile: "singleSpaced s \<Longrightarrow> singleSpaced (rev (dropWhile P (rev s)))"
proof -
  assume a: "singleSpaced s"
  have "s = rev (dropWhile P (rev s)) @ rev (takeWhile P (rev s))"
    by (metis rev_append rev_rev_ident takeWhile_dropWhile_id)
  with a show ?thesis by (metis singleSpaced_append_left)
qed

lemma singleSpaced_trim: "singleSpaced s \<Longrightarrow> singleSpaced (str_trim s)"
  unfolding str_trim_def by (intro singleSpaced_rev_dropWhile singleSpaced_dropWhile)

lemma trim_fix: "s = [] \<or> (\<not> isSpace (hd s) \<and> \<not> isSpace (last s)) \<Longrightarrow> str_trim s = s"
proof (cases "s = []")
  case True
  then show ?thesis by (simp add: str_trim_def)
next
  case False
  assume "s = [] \<or> (\<not> isSpace (hd s) \<and> \<not> isSpace (last s))"
  with False have h: "\<not> isSpace (hd s)" and l: "\<not> isSpace (last s)" by auto
  have 1: "dropWhile isSpace s = s" using h by (simp add: dropWhile_eq_self_iff)
  have "hd (rev s) = last s" using False by (simp add: hd_rev)
  then have 2: "dropWhile isSpace (rev s) = rev s" using l by (simp add: dropWhile_eq_self_iff)
  show ?thesis by (simp add: str_trim_def 1 2)
qed

lemma last_dropWhile_ne: "dropWhile P xs \<noteq> [] \<Longrightarrow> last (dropWhile P xs) = last xs"
  by (metis last_appendR takeWhile_dropWhile_id)

lemma trim_ends:
  assumes "str_trim s \<noteq> []"
  shows "\<not> isSpace (hd (str_trim s)) \<and> \<not> isSpace (last (str_trim s))"
proof -
  let ?d = "dropWhile isSpace s"
  let ?e = "dropWhile isSpace (rev ?d)"
  have t: "str_trim s = rev ?e" by (simp add: str_trim_def)
  with assms have e: "?e \<noteq> []" by simp
  then have d: "?d \<noteq> []" by (metis dropWhile.simps(1) rev.simps(1))
  have "\<not> isSpace (hd ?e)" using e by (rule dropWhile_hd)
  then have A: "\<not> isSpace (last (str_trim s))" using e by (simp add: t last_rev)
  have "last ?e = last (rev ?d)" using e by (rule last_dropWhile_ne)
  also have "\<dots> = hd ?d" using d by (simp add: last_rev)
  finally have "hd (str_trim s) = hd ?d" using e by (simp add: t hd_rev)
  moreover have "\<not> isSpace (hd ?d)" using d by (rule dropWhile_hd)
  ultimately show ?thesis using A by simp
qed

lemma trim_trim: "str_trim (str_trim s) = str_trim s"
  by (rule trim_fix) (use trim_ends in blast)

subsection \<open>Lower case\<close>

lemma lowerChar_alt: "lowerChar c = (if isUpperCode (of_char c) then char_of (of_char c + 32 :: nat) else c)"
  by (simp add: lowerChar_def isUpperCode_def Let_def)

lemma mod_small: "isUpperCode n \<Longrightarrow> (n + 32) mod 256 = n + 32"
  unfolding isUpperCode_def by (intro mod_less) arith

lemma of_char_lowerChar:
  "(of_char (lowerChar c) :: nat) = (if isUpperCode (of_char c) then of_char c + 32 else of_char c)"
  by (simp add: lowerChar_alt mod_small)

lemma upper_not_space: "isUpperCode n \<Longrightarrow> \<not> isSpaceCode n \<and> \<not> isSpaceCode (n + 32) \<and> \<not> isUpperCode (n + 32)"
  unfolding isUpperCode_def isSpaceCode_def by simp arith

lemma isSpace_code: "isSpace c = isSpaceCode (of_char c)"
  by (simp add: isSpace_def isSpaceCode_def)

lemma isSpace_lowerChar [simp]: "isSpace (lowerChar c) = isSpace c"
  by (simp add: isSpace_code of_char_lowerChar upper_not_space)

lemma lowerChar_idem [simp]: "lowerChar (lowerChar c) = lowerChar c"
  by (subst (1) lowerChar_alt) (simp add: of_char_lowerChar upper_not_space)

lemma lowerChar_eq_space [simp]: "lowerChar c = CHR '' '' \<longleftrightarrow> c = CHR '' ''"
proof
  assume a: "lowerChar c = CHR '' ''"
  have "isSpace (lowerChar c)" by (simp only: a isSpace_space)
  then have "isSpace c" by simp
  then have "isSpaceCode (of_char c)" by (simp add: isSpace_code)
  then have "\<not> isUpperCode (of_char c)" using upper_not_space by blast
  then show "c = CHR '' ''" using a by (simp add: lowerChar_alt)
next
  assume "c = CHR '' ''" then show "lowerChar c = CHR '' ''" by (simp add: lowerChar_alt isUpperCode_def)
qed

lemma singleSpaced_lower: "singleSpaced s \<Longrightarrow> singleSpaced (toLowerCase s)"
  unfolding toLowerCase_def
  by (induction s rule: singleSpaced.induct) auto

lemma isSpace_o_lower: "isSpace \<circ> lowerChar = isSpace"
  by (rule ext) simp

lemma trim_lower: "str_trim (toLowerCase s) = toLowerCase (str_trim s)"
  unfolding str_trim_def toLowerCase_def
  by (simp add: dropWhile_map rev_map isSpace_o_lower)

lemma lower_lower: "toLowerCase (toLowerCase s) = toLowerCase s"
  by (simp add: toLowerCase_def)

lemma cleanText_squeeze: "squeeze x \<noteq> [] \<Longrightarrow> cleanText (squeeze x)"
  unfolding cleanText_def squeeze_def
  by (simp add: trim_lower trim_trim lower_lower collapseWs_fix_iff singleSpaced_lower singleSpaced_trim singleSpaced_collapseWs)

subsection \<open>Splitting and tokens\<close>

lemma splitOn_ne [simp]: "splitOn P s \<noteq> []"
  by (induction s) (auto split: list.splits)

lemma splitOn_Cons_sep: "P c \<Longrightarrow> splitOn P (c # cs) = [] # splitOn P cs"
  by simp

lemma splitOn_Cons_other:
  "\<not> P c \<Longrightarrow> splitOn P (c # cs) = (c # hd (splitOn P cs)) # tl (splitOn P cs)"
  by (cases "splitOn P cs") (use splitOn_ne in auto)

lemma splitOn_cong: "(\<And>c. c \<in> set s \<Longrightarrow> P c = Q c) \<Longrightarrow> splitOn P s = splitOn Q s"
  by (induction s) auto

lemma join_Cons: "ts \<noteq> [] \<Longrightarrow> str_join (t # ts) sep = t @ sep @ str_join ts sep"
  by (cases ts) auto

lemma join_split: "str_join (splitOn (\<lambda>c. c = sep) s) [sep] = s"
proof (induction s)
  case Nil
  then show ?case by simp
next
  case (Cons c cs)
  show ?case
  proof (cases "c = sep")
    case True
    then show ?thesis using Cons by (simp add: join_Cons)
  next
    case False
    obtain t ts where sp: "splitOn (\<lambda>c. c = sep) cs = t # ts"
      by (cases "splitOn (\<lambda>c. c = sep) cs") (use splitOn_ne in auto)
    show ?thesis
    proof (cases ts)
      case Nil
      then show ?thesis using False Cons sp by simp
    next
      case (Cons u us)
      then show ?thesis using False Cons.IH sp by simp
    qed
  qed
qed

lemma singleSpaced_only_space: "singleSpaced s \<Longrightarrow> c \<in> set s \<Longrightarrow> isSpace c \<Longrightarrow> c = CHR '' ''"
  by (induction s) (auto simp: singleSpaced_Cons)

lemma tokens_nonempty_aux:
  "singleSpaced r \<Longrightarrow> r \<noteq> [] \<Longrightarrow> \<not> isSpace (last r) \<Longrightarrow>
     [] \<notin> set (tl (splitOn (\<lambda>c. c = CHR '' '') r)) \<and>
     (\<not> isSpace (hd r) \<longrightarrow> hd (splitOn (\<lambda>c. c = CHR '' '') r) \<noteq> [])"
proof (induction r)
  case Nil
  then show ?case by simp
next
  case (Cons c cs)
  let ?sp = "\<lambda>c. c = CHR '' ''"
  show ?case
  proof (cases "cs = []")
    case True
    with Cons.prems have "c \<noteq> CHR '' ''" by auto
    with True show ?thesis by simp
  next
    case False
    have ss: "singleSpaced cs" using Cons.prems(1) by (simp add: singleSpaced_Cons)
    have "\<not> isSpace (last cs)" using Cons.prems(3) False by simp
    with ss False Cons.IH
    have IH: "[] \<notin> set (tl (splitOn ?sp cs))" "\<not> isSpace (hd cs) \<Longrightarrow> hd (splitOn ?sp cs) \<noteq> []"
      by auto
    show ?thesis
    proof (cases "c = CHR '' ''")
      case True
      then have "\<not> isSpace (hd cs)" using Cons.prems(1) False by (simp add: singleSpaced_Cons)
      then have "hd (splitOn ?sp cs) \<noteq> []" by (rule IH(2))
      moreover have "splitOn ?sp cs = hd (splitOn ?sp cs) # tl (splitOn ?sp cs)" by simp
      ultimately have "[] \<notin> set (splitOn ?sp cs)" using IH(1) by (metis set_ConsD)
      then show ?thesis using True by simp
    next
      case c: False
      then show ?thesis using IH(1) by (simp add: splitOn_Cons_other del: splitOn.simps)
    qed
  qed
qed

lemma cleanText_singleSpaced: "cleanText r \<Longrightarrow> singleSpaced r"
  by (simp add: cleanText_def collapseWs_fix_iff)

lemma cleanText_ends: "cleanText r \<Longrightarrow> r \<noteq> [] \<and> \<not> isSpace (hd r) \<and> \<not> isSpace (last r)"
  unfolding cleanText_def using trim_ends by metis

lemma cleanText_tokens: "cleanText r \<Longrightarrow> [] \<notin> set (str_split r CHR '' '')"
proof -
  assume c: "cleanText r"
  let ?s = "splitOn (\<lambda>c. c = CHR '' '') r"
  from c have "[] \<notin> set (tl ?s)" "hd ?s \<noteq> []"
    using tokens_nonempty_aux cleanText_singleSpaced cleanText_ends by blast+
  moreover have "?s = hd ?s # tl ?s" by simp
  ultimately have "[] \<notin> set ?s" by (metis set_ConsD)
  then show ?thesis by (simp add: str_split_def)
qed

lemma cleanText_splitOn: "cleanText r \<Longrightarrow> splitOn isSpace r = str_split r CHR '' ''"
  unfolding str_split_def
  by (rule splitOn_cong) (use singleSpaced_only_space cleanText_singleSpaced in auto)

lemma filter_id_tokens: "[] \<notin> set xs \<Longrightarrow> filter (\<lambda>t. t \<noteq> []) xs = xs"
  by (induction xs) auto

lemma cleanText_wsTokens: "cleanText r \<Longrightarrow> wsTokens r = str_split r CHR '' ''"
  by (simp add: wsTokens_def cleanText_splitOn cleanText_tokens filter_id_tokens)

lemma hasAllTokens_subset:
  "p \<noteq> [] \<Longrightarrow> hasAllTokens n p \<longleftrightarrow>
     set (filter (\<lambda>t. t \<noteq> []) (str_split n CHR '' '')) \<subseteq> set (filter (\<lambda>t. t \<noteq> []) (str_split p CHR '' ''))"
  by (auto simp: hasAllTokens_def Let_def list_all_iff str_split_def filter_empty_conv)

lemma hasAllTokens_single_subset:
  "n \<noteq> [] \<Longrightarrow> p \<noteq> [] \<Longrightarrow> hasAllTokens_single n p \<longleftrightarrow>
     set (str_split n CHR '' '') \<subseteq> set (str_split p CHR '' '')"
  by (auto simp: hasAllTokens_single_def Let_def list_all_iff)

lemma hasAllTokens_clean:
  "cleanText n \<Longrightarrow> cleanText p \<Longrightarrow> hasAllTokens n p \<longleftrightarrow> set (wsTokens n) \<subseteq> set (wsTokens p)"
  using hasAllTokens_subset [of p n] cleanText_ends [of p]
  by (simp add: cleanText_wsTokens cleanText_tokens filter_id_tokens)

lemma hasAllTokens_single_clean:
  "cleanText n \<Longrightarrow> cleanText p \<Longrightarrow> hasAllTokens_single n p \<longleftrightarrow> set (wsTokens n) \<subseteq> set (wsTokens p)"
  using hasAllTokens_single_subset [of n p] cleanText_ends [of p] cleanText_ends [of n]
  by (simp add: cleanText_wsTokens)

lemma normalizedMatchType_canonical: "normalizedMatchType m \<in> set [''EXACT'', ''PHRASE'', ''BROAD'']"
proof (cases "str_replace (toUpperCase m) ''_MATCH'' [] \<in> set [''EXACT'', ''PHRASE'', ''BROAD'']")
  case True
  then show ?thesis by (simp only: normalizedMatchType_def Let_def if_True)
next
  case False
  then have "normalizedMatchType m = ''BROAD''"
    by (simp only: normalizedMatchType_def Let_def if_False)
  then show ?thesis by simp
qed

lemma isNormalized_mk:
  "r \<noteq> [] \<Longrightarrow> r = squeeze x \<Longrightarrow>
     isNormalized \<lparr>display = displayOf (normalizedMatchType m) r, raw = r,
                   matchType = normalizedMatchType m\<rparr>"
  using normalizedMatchType_canonical [of m] cleanText_squeeze [of x]
  by (simp add: isNormalized_def)

lemma normalizeKeyword_isNormalized: "normalizeKeyword text mt = Some k \<Longrightarrow> isNormalized k"
  unfolding normalizeKeyword_def Let_def
  by (auto split: option.splits if_splits intro!: isNormalized_mk)


lemma isSubsequence_sublist:
  "n \<noteq> [] \<Longrightarrow> p \<noteq> [] \<Longrightarrow> isSubsequence n p = sublist ('' '' @ n @ '' '') ('' '' @ p @ '' '')"
  by (simp add: isSubsequence_def indexOf_sublist)

lemma isSubsequence_single_sublist:
  "n \<noteq> [] \<Longrightarrow> p \<noteq> [] \<Longrightarrow> isSubsequence_single n p = sublist ('' '' @ n @ '' '') ('' '' @ p @ '' '')"
  by (simp add: isSubsequence_single_def indexOf_sublist)


subsection \<open>Blank text\<close>

lemma dropWhile_blank: "list_all isSpace (dropWhile isSpace s) \<longleftrightarrow> list_all isSpace s"
  by (induction s) auto

lemma dropWhile_all: "list_all P s \<Longrightarrow> dropWhile P s = []"
  by (induction s) auto

lemma trim_empty_iff: "str_trim s = [] \<longleftrightarrow> blank s"
proof
  assume "str_trim s = []"
  then have "dropWhile isSpace (rev (dropWhile isSpace s)) = []" by (simp add: str_trim_def)
  then have "list_all isSpace (dropWhile isSpace s)"
    by (simp add: dropWhile_eq_Nil_conv list_all_iff)
  then show "blank s" by (simp add: dropWhile_blank blank_def)
next
  assume "blank s"
  then have "dropWhile isSpace s = []" unfolding blank_def by (rule dropWhile_all)
  then show "str_trim s = []" by (simp add: str_trim_def del: dropWhile_eq_Nil_conv)
qed

lemma collapseWs_blank: "list_all isSpace (collapseWs s) \<longleftrightarrow> list_all isSpace s"
proof (induction s rule: collapseWs.induct)
  case 1
  then show ?case by simp
next
  case (2 c cs)
  then show ?case by (cases "isSpace c") (simp_all add: dropWhile_blank)
qed

lemma squeeze_empty_iff: "squeeze x = [] \<longleftrightarrow> blank x"
  by (simp add: squeeze_def toLowerCase_def trim_empty_iff blank_def collapseWs_blank)

subsection \<open>Normalizing a normalized keyword again\<close>













lemma keyword_eqI:
  "display k = d \<Longrightarrow> raw k = r \<Longrightarrow> matchType k = m \<Longrightarrow>
     \<lparr>display = d, raw = r, matchType = m\<rparr> = (k :: keyword)"
  by simp



subsection \<open>The two ways of removing the modifier\<close>



lemma stripPlus_no_plus: "CHR ''+'' \<notin> set w \<Longrightarrow> stripPlusRegex (w @ rest) = w @ stripPlusRegex rest"
  by (induction w) auto

lemma stripPlus_run:
  "CHR ''+'' \<notin> set v \<Longrightarrow> rest = [] \<or> isSpace (hd rest) \<Longrightarrow>
     takeWhile (\<lambda>d. \<not> isSpace d) (v @ rest)
       @ stripPlusRegex (dropWhile (\<lambda>d. \<not> isSpace d) (v @ rest))
     = v @ stripPlusRegex rest"
proof (induction v)
  case Nil
  then show ?case by (cases rest) auto
next
  case (Cons c v)
  show ?case
  proof (cases "isSpace c")
    case True
    have "stripPlusRegex ((c # v) @ rest) = (c # v) @ stripPlusRegex rest"
      using Cons.prems(1) by (rule stripPlus_no_plus)
    then show ?thesis using True by simp
  next
    case False
    then show ?thesis using Cons by simp
  qed
qed

lemma startsWith_plus: "str_startsWith w ''+'' \<longleftrightarrow> w \<noteq> [] \<and> hd w = CHR ''+''"
  by (cases w) (auto simp: str_startsWith_def)

lemma stripPlus_token:
  assumes "plainModifier w" and "rest = [] \<or> isSpace (hd rest)"
  shows "stripPlusRegex (w @ rest) = dropPlus w @ stripPlusRegex rest"
proof (cases "CHR ''+'' \<in> set w")
  case False
  then have "\<not> str_startsWith w ''+''" by (cases w) (auto simp: str_startsWith_def)
  then show ?thesis using False by (simp add: dropPlus_def stripPlus_no_plus)
next
  case True
  with assms(1) obtain v where w: "w = CHR ''+'' # v" and v: "v \<noteq> []" "\<not> isSpace (hd v)"
      "CHR ''+'' \<notin> set v"
    unfolding plainModifier_def by (cases w) auto
  have d: "dropPlus w = v" by (simp add: dropPlus_def w str_startsWith_def)
  have "stripPlusRegex (w @ rest) =
          takeWhile (\<lambda>d. \<not> isSpace d) (v @ rest)
            @ stripPlusRegex (dropWhile (\<lambda>d. \<not> isSpace d) (v @ rest))"
    using v(1,2) by (simp add: w hd_append)
  also have "\<dots> = v @ stripPlusRegex rest"
    using v(3) assms(2) by (rule stripPlus_run)
  finally show ?thesis by (simp add: d)
qed

lemma stripPlus_join:
  "list_all plainModifier ws \<Longrightarrow>
     stripPlusRegex (str_join ws '' '') = str_join (map dropPlus ws) '' ''"
proof (induction ws)
  case Nil
  then show ?case by simp
next
  case (Cons x ws)
  show ?case
  proof (cases ws)
    case Nil
    then show ?thesis using Cons.prems stripPlus_token [of x "[]"] by simp
  next
    case (Cons y ys)
    have "stripPlusRegex (x @ CHR '' '' # str_join ws '' '') =
            dropPlus x @ stripPlusRegex (CHR '' '' # str_join ws '' '')"
      using Cons.prems by (intro stripPlus_token) simp_all
    moreover have "stripPlusRegex (str_join ws '' '') = str_join (map dropPlus ws) '' ''"
      using Cons.prems by (intro Cons.IH) simp
    ultimately show ?thesis using Cons by simp
  qed
qed

lemma stripModifiers_agree: "modifiersPlain u \<Longrightarrow> stripModifiers_single u = stripModifiers u"
proof -
  assume "modifiersPlain u"
  then have "stripPlusRegex (str_join (str_split u CHR '' '') '' '')
               = str_join (map dropPlus (str_split u CHR '' '')) '' ''"
    unfolding modifiersPlain_def by (rule stripPlus_join)
  moreover have "str_join (str_split u CHR '' '') '' '' = u"
    using join_split [of "CHR '' ''" u] by (simp add: str_split_def)
  moreover have "dropPlus = (\<lambda>w. if str_startsWith w ''+'' then drop 1 w else w)"
    by (rule ext) (simp add: dropPlus_def)
  ultimately show ?thesis
    by (simp add: stripModifiers_def stripModifiers_single_def)
qed

lemma unwrapped_agree: "apiMatchType m \<Longrightarrow> unwrapped_single t m = unwrapped t m"
proof -
  assume "apiMatchType m"
  then consider "toUpperCase m = ''EXACT''" | "toUpperCase m = ''PHRASE''" | "toUpperCase m = ''BROAD''"
    | "toUpperCase m = ''EXACT_MATCH''" | "toUpperCase m = ''PHRASE_MATCH''"
    | "toUpperCase m = ''BROAD_MATCH''"
    unfolding apiMatchType_def by auto
  then have "(str_includes (toUpperCase m) ''PHRASE'' \<longleftrightarrow> normalizedMatchType m = ''PHRASE'') \<and>
             (str_includes (toUpperCase m) ''EXACT'' \<longleftrightarrow> normalizedMatchType m = ''EXACT'')"
  proof cases
    case 1
    have "str_includes ''EXACT'' ''EXACT''" "\<not> str_includes ''EXACT'' ''PHRASE''"
      "str_replace ''EXACT'' ''_MATCH'' [] = ''EXACT''" by code_simp+
    then show ?thesis by (simp add: normalizedMatchType_def 1)
  next
    case 2
    have "\<not> str_includes ''PHRASE'' ''EXACT''" "str_includes ''PHRASE'' ''PHRASE''"
      "str_replace ''PHRASE'' ''_MATCH'' [] = ''PHRASE''" by code_simp+
    then show ?thesis by (simp add: normalizedMatchType_def 2)
  next
    case 3
    have "\<not> str_includes ''BROAD'' ''EXACT''" "\<not> str_includes ''BROAD'' ''PHRASE''"
      "str_replace ''BROAD'' ''_MATCH'' [] = ''BROAD''" by code_simp+
    then show ?thesis by (simp add: normalizedMatchType_def 3)
  next
    case 4
    have "str_includes ''EXACT_MATCH'' ''EXACT''" "\<not> str_includes ''EXACT_MATCH'' ''PHRASE''"
      "str_replace ''EXACT_MATCH'' ''_MATCH'' [] = ''EXACT''" by code_simp+
    then show ?thesis by (simp add: normalizedMatchType_def 4)
  next
    case 5
    have "\<not> str_includes ''PHRASE_MATCH'' ''EXACT''" "str_includes ''PHRASE_MATCH'' ''PHRASE''"
      "str_replace ''PHRASE_MATCH'' ''_MATCH'' [] = ''PHRASE''" by code_simp+
    then show ?thesis by (simp add: normalizedMatchType_def 5)
  next
    case 6
    have "\<not> str_includes ''BROAD_MATCH'' ''EXACT''" "\<not> str_includes ''BROAD_MATCH'' ''PHRASE''"
      "str_replace ''BROAD_MATCH'' ''_MATCH'' [] = ''BROAD''" by code_simp+
    then show ?thesis by (simp add: normalizedMatchType_def 6)
  qed
  then show ?thesis by (auto simp: unwrapped_def unwrapped_single_def)
qed

lemma normalizeKeyword_agree:
  "apiMatchType m \<Longrightarrow> modifiersPlain (unwrapped t m) \<Longrightarrow>
     normalizeKeyword_single (Some t) (Some m) = normalizeKeyword (Some t) (Some m)"
  by (simp add: normalizeKeyword_def normalizeKeyword_single_def unwrapped_agree
      stripModifiers_agree)

lemma blocks_agree:
  assumes "isNormalized n" and "isNormalized p"
  shows "negativeBlocksPositive_single (Some n) (Some p) = Inr (negativeBlocksPositive (Some n) (Some p))"
proof -
  have c: "cleanText (raw n)" "cleanText (raw p)" using assms by (simp_all add: isNormalized_def)
  then have ne: "raw n \<noteq> []" "raw p \<noteq> []" by (simp_all add: cleanText_def)
  have "isSubsequence_single (raw n) (raw p) = isSubsequence (raw n) (raw p)"
    using ne by (simp add: isSubsequence_def isSubsequence_single_def)
  moreover have "hasAllTokens_single (raw n) (raw p) = hasAllTokens (raw n) (raw p)"
    using c by (simp add: hasAllTokens_clean hasAllTokens_single_clean)
  ultimately show ?thesis
    by (simp add: negativeBlocksPositive_def negativeBlocksPositive_single_def)
qed


section \<open>Lemmas about the analyzer\<close>

lemma scanPositives_eq: "scanPositives n ps acc = acc @ blockedBy n ps"
  by (induction ps arbitrary: acc) (simp_all add: blockedBy_def)

lemma blockedBy_empty_iff:
  "blockedBy n ps \<noteq> [] \<longleftrightarrow> list_ex (\<lambda>p. negativeBlocksPositive (Some n) (Some p)) ps"
  by (simp add: blockedBy_def list_ex_iff filter_empty_conv)

lemma checkLevelForConflicts_eq:
  "checkLevelForConflicts out ns ps loc = out @ levelRows ns ps loc"
proof (induction ns arbitrary: out)
  case Nil
  then show ?case by (simp add: levelRows_def)
next
  case (Cons n ns)
  show ?case
  proof (cases "list_ex (\<lambda>p. negativeBlocksPositive (Some n) (Some p)) ps")
    case True
    then have "blockedBy n ps \<noteq> []" by (simp add: blockedBy_empty_iff)
    then show ?thesis using True Cons.IH
      by (simp add: scanPositives_eq levelRows_def)
  next
    case False
    then have "blockedBy n ps = []" using blockedBy_empty_iff by blast
    then show ?thesis using False Cons.IH
      by (simp add: scanPositives_eq levelRows_def)
  qed
qed

lemma checkSharedLists_eq:
  "checkSharedLists c campaign ps infos out =
     out @ concat (map (\<lambda>info. case map_of (sharedLists c) (listId info) of
                           None \<Rightarrow> []
                         | Some l \<Rightarrow> levelRows (slNegatives l) ps (sharedListLocation campaign info))
               infos)"
proof (induction infos arbitrary: out)
  case Nil
  then show ?case by simp
next
  case (Cons info infos)
  show ?case
    by (cases "map_of (sharedLists c) (listId info)")
      (simp_all add: Cons.IH Let_def checkLevelForConflicts_eq sharedListLocation_def)
qed

lemma checkAdGroup_eq: "checkAdGroup c campaign adGroup out = out @ adGroupRows c campaign adGroup"
  by (simp add: checkAdGroup_def adGroupRows_def Let_def checkLevelForConflicts_eq
      checkSharedLists_eq sharedRows_def)

lemma adGroupLoop_eq:
  "adGroupLoop c campaign ags out =
     out @ concat (map (\<lambda>(gid, adGroup). adGroupRows c campaign adGroup) ags)"
  by (induction ags arbitrary: out) (auto simp: checkAdGroup_eq)

lemma campaignLoop_eq:
  "campaignLoop c camps out = out @ concat (map (\<lambda>(cid, campaign). campaignRows c campaign) camps)"
  by (induction camps arbitrary: out) (auto simp: adGroupLoop_eq campaignRows_def)

lemma findConflicts_eq:
  "findConflicts c = concat (map (\<lambda>(cid, campaign). campaignRows c campaign) (forIn (campaigns c)))"
  by (simp add: findConflicts_def campaignLoop_eq)

subsection \<open>Ad groups without positives\<close>

lemma checkAdGroup_no_positives: "positives adGroup = [] \<Longrightarrow> checkAdGroup c campaign adGroup out = out"
  by (simp add: checkAdGroup_def)

lemma checkAdGroup_single_no_positives:
  "positives adGroup = [] \<Longrightarrow> checkAdGroup_single c campaign adGroup out = Inr out"
  by (simp add: checkAdGroup_single_def)

lemma adGroupLoop_filter:
  "adGroupLoop c campaign (filter hasPositives ags) out = adGroupLoop c campaign ags out"
  by (induction ags arbitrary: out) (auto simp: hasPositives_def checkAdGroup_no_positives)

lemma adGroupLoop_single_filter:
  "adGroupLoop_single c campaign (filter hasPositives ags) out = adGroupLoop_single c campaign ags out"
proof (induction ags arbitrary: out)
  case Nil
  then show ?case by simp
next
  case (Cons e ags)
  obtain gid ag where e: "e = (gid, ag)" by (cases e)
  show ?case
  proof (cases "positives ag = []")
    case True
    then show ?thesis using Cons.IH
      by (simp add: e hasPositives_def checkAdGroup_single_no_positives)
  next
    case False
    then show ?thesis using Cons.IH
      by (simp add: e hasPositives_def split: sum.splits)
  qed
qed

lemma insort_key_map_commute:
  "(\<And>x. f' (h x) = f x) \<Longrightarrow> insort_key f' (h x) (map h xs) = map h (insort_key f x xs)"
  by (induction xs) auto

lemma sort_key_map_commute:
  "(\<And>x. f' (h x) = f x) \<Longrightarrow> sort_key f' (map h xs) = map h (sort_key f xs)"
  by (induction xs) (simp_all add: insort_key_map_commute)

lemma forIn_filter: "forIn (filter Q obj) = filter Q (forIn obj)"
proof -
  have "filter (\<lambda>(k, v). isArrayIndex k) (filter Q obj) = filter Q (filter (\<lambda>(k, v). isArrayIndex k) obj)"
    by (simp add: conj_commute)
  moreover have "filter (\<lambda>(k, v). \<not> isArrayIndex k) (filter Q obj)
                   = filter Q (filter (\<lambda>(k, v). \<not> isArrayIndex k) obj)"
    by (simp add: conj_commute)
  ultimately show ?thesis
    by (simp add: forIn_def filter_sort)
qed

lemma forIn_map_values:
  "forIn (map (\<lambda>(k, v). (k, g v)) obj) = map (\<lambda>(k, v). (k, g v)) (forIn obj)"
proof -
  let ?h = "\<lambda>(k, v). (k, g v)"
  have k: "\<And>P. filter (\<lambda>(k, v). P k) (map ?h obj) = map ?h (filter (\<lambda>(k, v). P k) obj)"
    by (induction obj) auto
  have "sort_key (\<lambda>(k, v). decimalValue k) (map ?h (filter (\<lambda>(k, v). isArrayIndex k) obj))
          = map ?h (sort_key (\<lambda>(k, v). decimalValue k) (filter (\<lambda>(k, v). isArrayIndex k) obj))"
    by (rule sort_key_map_commute) (simp add: split_def)
  then show ?thesis
    using k [of isArrayIndex] k [of "\<lambda>k. \<not> isArrayIndex k"] by (simp add: forIn_def)
qed

lemma adGroupRows_dropEmpty:
  "adGroupRows (dropEmptyAdGroups c) (withoutEmptyAdGroups campaign) adGroup
     = adGroupRows c campaign adGroup"
proof -
  have "sharedListLocation (withoutEmptyAdGroups campaign) = sharedListLocation campaign"
    by (rule ext) (simp add: sharedListLocation_def withoutEmptyAdGroups_def)
  then have "sharedRows (dropEmptyAdGroups c) (withoutEmptyAdGroups campaign) ps
               = sharedRows c campaign ps" for ps
    by (simp add: sharedRows_def dropEmptyAdGroups_def withoutEmptyAdGroups_def
        cong: option.case_cong)
  then show ?thesis
    by (simp add: adGroupRows_def dropEmptyAdGroups_def withoutEmptyAdGroups_def)
qed

lemma concat_filter_hasPositives:
  "concat (map (\<lambda>(gid, adGroup). adGroupRows c campaign adGroup) (filter hasPositives ags))
     = concat (map (\<lambda>(gid, adGroup). adGroupRows c campaign adGroup) ags)"
  by (induction ags) (auto simp: hasPositives_def adGroupRows_def)

lemma campaignRows_dropEmpty:
  "campaignRows (dropEmptyAdGroups c) (withoutEmptyAdGroups campaign) = campaignRows c campaign"
proof -
  have "adGroups (withoutEmptyAdGroups campaign) = filter hasPositives (adGroups campaign)"
    by (simp add: withoutEmptyAdGroups_def)
  then show ?thesis
    by (simp add: campaignRows_def forIn_filter adGroupRows_dropEmpty concat_filter_hasPositives)
qed

lemma findConflicts_dropEmpty: "findConflicts (dropEmptyAdGroups c) = findConflicts c"
proof -
  have "campaigns (dropEmptyAdGroups c)
          = map (\<lambda>(cid, campaign). (cid, withoutEmptyAdGroups campaign)) (campaigns c)"
    by (simp add: dropEmptyAdGroups_def)
  then have "forIn (campaigns (dropEmptyAdGroups c))
          = map (\<lambda>(cid, campaign). (cid, withoutEmptyAdGroups campaign)) (forIn (campaigns c))"
    by (simp add: forIn_map_values)
  then show ?thesis
    by (simp add: findConflicts_eq o_def split_def campaignRows_dropEmpty)
qed

lemma checkSharedLists_single_cong:
  "sharedLists_single c' = sharedLists_single c \<Longrightarrow> cName campaign' = cName campaign \<Longrightarrow>
     checkSharedLists_single c' campaign' ps infos out = checkSharedLists_single c campaign ps infos out"
  by (induction infos arbitrary: out) (auto simp: Let_def split: option.splits sum.splits)

lemma checkAdGroup_single_dropEmpty:
  "checkAdGroup_single (dropEmptyAdGroups_single c) (withoutEmptyAdGroups campaign) adGroup out
     = checkAdGroup_single c campaign adGroup out"
proof -
  have "checkSharedLists_single (dropEmptyAdGroups_single c) (withoutEmptyAdGroups campaign) ps infos o'
          = checkSharedLists_single c campaign ps infos o'" for ps infos o'
    by (rule checkSharedLists_single_cong)
      (simp_all add: dropEmptyAdGroups_single_def withoutEmptyAdGroups_def)
  then show ?thesis
    by (simp add: checkAdGroup_single_def withoutEmptyAdGroups_def split: sum.splits)
qed

lemma adGroupLoop_single_dropEmpty:
  "adGroupLoop_single (dropEmptyAdGroups_single c) (withoutEmptyAdGroups campaign) ags out
     = adGroupLoop_single c campaign ags out"
  by (induction ags arbitrary: out) (auto simp: checkAdGroup_single_dropEmpty split: sum.splits)

lemma campaignLoop_single_dropEmpty:
  "campaignLoop_single (dropEmptyAdGroups_single c)
       (map (\<lambda>(cid, campaign). (cid, withoutEmptyAdGroups campaign)) camps) out
     = campaignLoop_single c camps out"
proof (induction camps arbitrary: out)
  case Nil
  then show ?case by simp
next
  case (Cons e camps)
  obtain cid campaign where e: "e = (cid, campaign)" by (cases e)
  have "adGroupLoop_single (dropEmptyAdGroups_single c) (withoutEmptyAdGroups campaign)
          (forIn (adGroups (withoutEmptyAdGroups campaign))) out
        = adGroupLoop_single c campaign (forIn (adGroups campaign)) out"
  proof -
    have a: "adGroups (withoutEmptyAdGroups campaign) = filter hasPositives (adGroups campaign)"
      by (simp add: withoutEmptyAdGroups_def)
    show ?thesis
      by (simp only: a forIn_filter adGroupLoop_single_dropEmpty adGroupLoop_single_filter)
  qed
  then show ?case using Cons.IH by (simp add: e split: sum.splits)
qed

lemma findConflicts_single_dropEmpty:
  "findConflicts_single (dropEmptyAdGroups_single c) = findConflicts_single c"
proof -
  have "campaigns_single (dropEmptyAdGroups_single c)
          = map (\<lambda>(cid, campaign). (cid, withoutEmptyAdGroups campaign)) (campaigns_single c)"
    by (simp add: dropEmptyAdGroups_single_def)
  then show ?thesis
    by (simp add: findConflicts_single_def forIn_map_values campaignLoop_single_dropEmpty)
qed

section \<open>Lemmas about the cache builder\<close>

lemma isl_runQuery: "isl (runQuery step q c) = isl q"
  by (cases q) (simp_all add: runQuery_def)

lemma isl_fetchShared:
  "isl (fetchSharedNegativeLists q1 q2 c) = (isl q1 \<or> isl q2)"
  by (cases q1; cases q2) (simp_all add: fetchSharedNegativeLists_def runQuery_def)

lemma isl_fetchShared_single:
  "isl (fetchSharedNegativeLists_single q1 q2 c) = (isl q1 \<or> isl q2)"
  by (cases q1; cases q2) (simp_all add: fetchSharedNegativeLists_single_def runQuery_def)

lemma buildDataCache_None_iff:
  "buildDataCache ds = None \<longleftrightarrow>
     isl (keywordView ds) \<or> isl (campaignCriterion ds) \<or> isl (sharedCriterion ds)
       \<or> isl (campaignSharedSet ds) \<or> isl (customerNegativeCriterion ds)"
  by (cases "keywordView ds"; cases "campaignCriterion ds"; cases "sharedCriterion ds";
      cases "campaignSharedSet ds"; cases "customerNegativeCriterion ds")
    (simp_all add: buildDataCache_def fetchKeywords_def fetchCampaignNegatives_def
      fetchSharedNegativeLists_def fetchAccountNegatives_def runQuery_def)

lemma buildDataCache_single_None_iff:
  "buildDataCache_single ds = None \<longleftrightarrow>
     isl (keywordView ds) \<or> isl (campaignCriterion ds) \<or> isl (sharedCriterion ds)
       \<or> isl (campaignSharedSet ds)"
  by (cases "keywordView ds"; cases "campaignCriterion ds"; cases "sharedCriterion ds";
      cases "campaignSharedSet ds")
    (simp_all add: buildDataCache_single_def fetchKeywords_single_def
      fetchCampaignNegatives_single_def fetchSharedNegativeLists_single_def runQuery_def)

lemma list_all_modifyKey:
  "list_all (\<lambda>(k, v). Q v) obj \<Longrightarrow> (\<And>v. Q v \<Longrightarrow> Q (f v)) \<Longrightarrow>
     list_all (\<lambda>(k, v). Q v) (modifyKey key f obj)"
  by (auto simp: modifyKey_def list_all_iff split: if_splits)

lemma list_all_ensureKey:
  "list_all (\<lambda>(k, v). Q v) obj \<Longrightarrow> Q v \<Longrightarrow> list_all (\<lambda>(k, v). Q v) (ensureKey key v obj)"
  by (simp add: ensureKey_def)

lemma campaignNormalized_new: "campaignNormalized (newCampaign n)"
  by (simp add: campaignNormalized_def newCampaign_def)

lemma adGroupNormalized_new: "adGroupNormalized (newAdGroup n)"
  by (simp add: adGroupNormalized_def newAdGroup_def)

lemma ensureAdGroup_normalized:
  assumes "list_all (\<lambda>(cid, campaign). campaignNormalized campaign) camps"
  shows "list_all (\<lambda>(cid, campaign). campaignNormalized campaign)
           (ensureAdGroup cid cname gid gname camps)"
  unfolding ensureAdGroup_def
proof (rule list_all_modifyKey)
  show "list_all (\<lambda>(cid, campaign). campaignNormalized campaign)
          (ensureKey cid (newCampaign cname) camps)"
    using assms campaignNormalized_new by (rule list_all_ensureKey)
next
  fix v :: "keyword campaignEntry"
  assume "campaignNormalized v"
  then show "campaignNormalized (v\<lparr>adGroups := ensureKey gid (newAdGroup gname) (adGroups v)\<rparr>)"
    using list_all_ensureKey [of adGroupNormalized "adGroups v" "newAdGroup gname" gid]
      adGroupNormalized_new [of gname]
    by (simp add: campaignNormalized_def)
qed

lemma pushAdGroupKeyword_normalized:
  assumes "list_all (\<lambda>(cid, campaign). campaignNormalized campaign) camps" and "isNormalized k"
  shows "list_all (\<lambda>(cid, campaign). campaignNormalized campaign)
           (pushAdGroupKeyword cid gid flag k camps)"
  unfolding pushAdGroupKeyword_def
proof (rule list_all_modifyKey [OF assms(1)])
  fix v :: "keyword campaignEntry"
  assume v: "campaignNormalized v"
  let ?f = "\<lambda>ag. if flag = Some True then ag\<lparr>agNegatives := agNegatives ag @ [k]\<rparr>
                   else ag\<lparr>positives := positives ag @ [k]\<rparr>"
  have "list_all (\<lambda>(gid, ag). adGroupNormalized ag) (modifyKey gid ?f (adGroups v))"
  proof (rule list_all_modifyKey)
    show "list_all (\<lambda>(gid, ag). adGroupNormalized ag) (adGroups v)"
      using v by (simp add: campaignNormalized_def)
  next
    fix ag :: "keyword adGroupEntry"
    assume "adGroupNormalized ag"
    then show "adGroupNormalized (?f ag)" using assms(2) by (simp add: adGroupNormalized_def)
  qed
  then show "campaignNormalized (v\<lparr>adGroups := modifyKey gid ?f (adGroups v)\<rparr>)"
    using v by (simp add: campaignNormalized_def)
qed

lemma keywordStep_normalized: "cacheNormalized c \<Longrightarrow> cacheNormalized (keywordStep c r)"
proof -
  assume c: "cacheNormalized c"
  then have camps: "list_all (\<lambda>(cid, campaign). campaignNormalized campaign) (campaigns c)"
    by (simp add: cacheNormalized_def)
  show ?thesis
  proof (cases "falsy (campaign_id r) \<or> falsy (ad_group_id r) \<or> falsy (keyword_text r)
                  \<or> falsy (keyword_match_type r)")
    case True
    then show ?thesis using c by (simp add: keywordStep_def)
  next
    case False
    then obtain cid gid where ids: "campaign_id r = Some cid" "ad_group_id r = Some gid"
      by (auto simp: falsy_def split: option.splits)
    let ?camps = "ensureAdGroup cid (campaign_name r) gid (ad_group_name r) (campaigns c)"
    have e: "list_all (\<lambda>(cid, campaign). campaignNormalized campaign) ?camps"
      using camps by (rule ensureAdGroup_normalized)
    show ?thesis
    proof (cases "normalizeKeyword (keyword_text r) (keyword_match_type r)")
      case None
      then show ?thesis using False ids e c
        by (simp add: keywordStep_def cacheNormalized_def)
    next
      case (Some k)
      then have "isNormalized k" by (rule normalizeKeyword_isNormalized)
      then have "list_all (\<lambda>(cid, campaign). campaignNormalized campaign)
                   (pushAdGroupKeyword cid gid (criterion_negative r) k ?camps)"
        using e by (intro pushAdGroupKeyword_normalized)
      then show ?thesis using False ids Some c
        by (simp add: keywordStep_def cacheNormalized_def)
    qed
  qed
qed

lemma campaignNegativeStep_normalized:
  "cacheNormalized c \<Longrightarrow> cacheNormalized (campaignNegativeStep c r)"
proof -
  assume c: "cacheNormalized c"
  then have camps: "list_all (\<lambda>(cid, campaign). campaignNormalized campaign) (campaigns c)"
    by (simp add: cacheNormalized_def)
  have push: "list_all (\<lambda>(cid, campaign). campaignNormalized campaign)
                (modifyKey cid (\<lambda>camp. camp\<lparr>cNegatives := cNegatives camp @ [k]\<rparr>) (campaigns c))"
    if "isNormalized k" for cid k
    using camps
  proof (rule list_all_modifyKey)
    fix v :: "keyword campaignEntry"
    assume "campaignNormalized v"
    then show "campaignNormalized (v\<lparr>cNegatives := cNegatives v @ [k]\<rparr>)"
      using that by (simp add: campaignNormalized_def)
  qed
  show ?thesis
    using c push normalizeKeyword_isNormalized
    by (auto simp: campaignNegativeStep_def cacheNormalized_def split: option.splits)
qed

lemma sharedKeywordStep_normalized:
  "cacheNormalized c \<Longrightarrow> cacheNormalized (sharedKeywordStep c r)"
proof -
  assume c: "cacheNormalized c"
  then have lists: "list_all (\<lambda>(lid, l). list_all isNormalized (slNegatives l)) (sharedLists c)"
    by (simp add: cacheNormalized_def)
  have ens: "list_all (\<lambda>(lid, l). list_all isNormalized (slNegatives l))
               (ensureKey lid \<lparr>slName = lname, slNegatives = []\<rparr> (sharedLists c))" for lid lname
    using lists by (rule list_all_ensureKey) simp
  have push: "list_all (\<lambda>(lid, l). list_all isNormalized (slNegatives l))
                (modifyKey lid (\<lambda>l. l\<lparr>slNegatives := slNegatives l @ [k]\<rparr>)
                   (ensureKey lid \<lparr>slName = lname, slNegatives = []\<rparr> (sharedLists c)))"
    if "isNormalized k" for lid lname k
    using ens
  proof (rule list_all_modifyKey)
    fix v :: "keyword sharedListEntry"
    assume "list_all isNormalized (slNegatives v)"
    then show "list_all isNormalized (slNegatives (v\<lparr>slNegatives := slNegatives v @ [k]\<rparr>))"
      using that by simp
  qed
  show ?thesis
    using c ens push normalizeKeyword_isNormalized
    by (auto simp: sharedKeywordStep_def cacheNormalized_def Let_def split: option.splits)
qed

lemma associationStep_normalized:
  "cacheNormalized c \<Longrightarrow> cacheNormalized (associationStep c r)"
proof -
  assume c: "cacheNormalized c"
  then have camps: "list_all (\<lambda>(cid, campaign). campaignNormalized campaign) (campaigns c)"
    by (simp add: cacheNormalized_def)
  have add: "list_all (\<lambda>(cid, campaign). campaignNormalized campaign)
               (modifyKey cid
                  (\<lambda>camp. if list_ex (\<lambda>item. listId item = lid) (sharedListNegatives camp) then camp
                           else camp\<lparr>sharedListNegatives :=
                                  sharedListNegatives camp @ [\<lparr>listId = lid, listName = nm\<rparr>]\<rparr>)
                  (campaigns c))" for cid lid nm
    using camps
  proof (rule list_all_modifyKey)
    fix v :: "keyword campaignEntry"
    assume "campaignNormalized v"
    then show "campaignNormalized
                 (if list_ex (\<lambda>item. listId item = lid) (sharedListNegatives v) then v
                  else v\<lparr>sharedListNegatives :=
                         sharedListNegatives v @ [\<lparr>listId = lid, listName = nm\<rparr>]\<rparr>)"
      by (simp add: campaignNormalized_def)
  qed
  show ?thesis
    using c add
    by (auto simp: associationStep_def cacheNormalized_def split: option.splits)
qed

lemma accountNegativeStep_normalized:
  "cacheNormalized c \<Longrightarrow> cacheNormalized (accountNegativeStep c r)"
  using normalizeKeyword_isNormalized
  by (auto simp: accountNegativeStep_def cacheNormalized_def split: option.splits)

lemma rowLoop_invariant:
  "(\<And>c r. I c \<Longrightarrow> I (step c r)) \<Longrightarrow> I c \<Longrightarrow> I (rowLoop step c rows)"
  by (induction step c rows rule: rowLoop.induct) auto

lemma runQuery_invariant:
  "(\<And>c r. I c \<Longrightarrow> I (step c r)) \<Longrightarrow> I c \<Longrightarrow> runQuery step q c = Inr c' \<Longrightarrow> I c'"
  using rowLoop_invariant [of I step c]
  by (cases q) (auto simp: runQuery_def)

lemma buildDataCache_steps:
  assumes "buildDataCache ds = Some c"
  shows "\<exists>c1 c2 c2' c3.
    runQuery keywordStep (keywordView ds) emptyCache = Inr c1 \<and>
    runQuery campaignNegativeStep (campaignCriterion ds) c1 = Inr c2 \<and>
    runQuery sharedKeywordStep (sharedCriterion ds) c2 = Inr c2' \<and>
    runQuery associationStep (campaignSharedSet ds) c2' = Inr c3 \<and>
    runQuery accountNegativeStep (customerNegativeCriterion ds) c3 = Inr c"
proof (cases "fetchKeywords (keywordView ds) emptyCache")
  case (Inl e)
  then show ?thesis using assms by (simp add: buildDataCache_def)
next
  case (Inr c1)
  note 1 = this
  show ?thesis
  proof (cases "fetchCampaignNegatives (campaignCriterion ds) c1")
    case (Inl e)
    then show ?thesis using assms 1 by (simp add: buildDataCache_def)
  next
    case (Inr c2)
    note 2 = this
    show ?thesis
    proof (cases "runQuery sharedKeywordStep (sharedCriterion ds) c2")
      case (Inl e)
      then show ?thesis using assms 1 2
        by (simp add: buildDataCache_def fetchSharedNegativeLists_def)
    next
      case (Inr c2')
      note 3 = this
      show ?thesis
      proof (cases "runQuery associationStep (campaignSharedSet ds) c2'")
        case (Inl e)
        then show ?thesis using assms 1 2 3
          by (simp add: buildDataCache_def fetchSharedNegativeLists_def)
      next
        case (Inr c3)
        note 4 = this
        show ?thesis
        proof (cases "fetchAccountNegatives (customerNegativeCriterion ds) c3")
          case (Inl e)
          then show ?thesis using assms 1 2 3 4
            by (simp add: buildDataCache_def fetchSharedNegativeLists_def)
        next
          case (Inr c4)
          then show ?thesis using assms 1 2 3 4
            by (simp add: buildDataCache_def fetchSharedNegativeLists_def fetchKeywords_def
                fetchCampaignNegatives_def fetchAccountNegatives_def)
        qed
      qed
    qed
  qed
qed

lemma buildDataCache_normalized:
  assumes "buildDataCache ds = Some c"
  shows "cacheNormalized c"
proof -
  from buildDataCache_steps [OF assms] obtain c1 c2 c2' c3 where
    1: "runQuery keywordStep (keywordView ds) emptyCache = Inr c1" and
    2: "runQuery campaignNegativeStep (campaignCriterion ds) c1 = Inr c2" and
    3: "runQuery sharedKeywordStep (sharedCriterion ds) c2 = Inr c2'" and
    4: "runQuery associationStep (campaignSharedSet ds) c2' = Inr c3" and
    5: "runQuery accountNegativeStep (customerNegativeCriterion ds) c3 = Inr c"
    by blast
  have 0: "cacheNormalized emptyCache" by (simp add: cacheNormalized_def emptyCache_def)
  have n1: "cacheNormalized c1"
    using runQuery_invariant [where I = cacheNormalized, OF keywordStep_normalized 0 1] .
  have n2: "cacheNormalized c2"
    using runQuery_invariant [where I = cacheNormalized, OF campaignNegativeStep_normalized n1 2] .
  have n3: "cacheNormalized c2'"
    using runQuery_invariant [where I = cacheNormalized, OF sharedKeywordStep_normalized n2 3] .
  have n4: "cacheNormalized c3"
    using runQuery_invariant [where I = cacheNormalized, OF associationStep_normalized n3 4] .
  show ?thesis
    using runQuery_invariant [where I = cacheNormalized, OF accountNegativeStep_normalized n4 5] .
qed


section \<open>The blocking rule: properties\<close>

text \<open>
  C1. A negative keyword of match type EXACT blocks a positive keyword if and only if
  the two raw texts are equal strings, in both scripts; the match type of the positive
  keyword has no effect on the result: whatever match type \<open>t\<close> the positive keyword is
  given, the answer is the same.
\<close>

theorem exact_negative_blocks_iff_raw_equal:
  "matchType negative = ''EXACT'' \<Longrightarrow>
     negativeBlocksPositive (Some negative) (Some (positive\<lparr>matchType := t\<rparr>))
       = (raw positive = raw negative) \<and>
     negativeBlocksPositive_single (Some negative) (Some (positive\<lparr>matchType := t\<rparr>))
       = Inr (raw positive = raw negative)"
  by (simp add: negativeBlocksPositive_def negativeBlocksPositive_single_def)

theorem exact_negative_blocks_witness:
  \<open>negativeBlocksPositive
      (Some \<lparr>display = ''[shoes]'', raw = ''shoes'', matchType = ''EXACT''\<rparr>)
      (Some \<lparr>display = ''"shoes"'', raw = ''shoes'', matchType = ''BROAD''\<rparr>) = True \<and>
    negativeBlocksPositive_single
      (Some \<lparr>display = ''[shoes]'', raw = ''shoes'', matchType = ''EXACT''\<rparr>)
      (Some \<lparr>display = ''"shoes"'', raw = ''shoes'', matchType = ''BROAD''\<rparr>) = Inr True\<close>
  using exact_negative_blocks_iff_raw_equal
    [where negative = \<open>\<lparr>display = ''[shoes]'', raw = ''shoes'', matchType = ''EXACT''\<rparr>\<close>
       and positive = \<open>\<lparr>display = ''"shoes"'', raw = ''shoes'', matchType = ''PHRASE''\<rparr>\<close>
       and t = "''BROAD''"]
  by simp

text \<open>
  C2. For normalized keywords and a negative keyword of match type PHRASE: against a
  positive keyword of match type EXACT the negative blocks if and only if the raw texts
  are equal; against any other positive keyword it blocks if and only if the negative's
  raw text, with a space in front and behind, occurs as a contiguous part of the
  positive's raw text with a space in front and behind. Both scripts.
\<close>

theorem phrase_negative_blocks:
  assumes "isNormalized negative" and "isNormalized positive"
    and "matchType negative = ''PHRASE''"
  shows "negativeBlocksPositive (Some negative) (Some positive) =
           (if matchType positive = ''EXACT'' then raw positive = raw negative
            else sublist ('' '' @ raw negative @ '' '') ('' '' @ raw positive @ '' '')) \<and>
         negativeBlocksPositive_single (Some negative) (Some positive) =
           Inr (if matchType positive = ''EXACT'' then raw positive = raw negative
                else sublist ('' '' @ raw negative @ '' '') ('' '' @ raw positive @ '' ''))"
proof -
  have "raw negative \<noteq> []" "raw positive \<noteq> []"
    using assms(1,2) by (simp_all add: isNormalized_def cleanText_def)
  then show ?thesis
    using assms(3)
    by (simp add: negativeBlocksPositive_def negativeBlocksPositive_single_def
        isSubsequence_sublist isSubsequence_single_sublist)
qed

theorem phrase_negative_blocks_witness:
  \<open>isNormalized \<lparr>display = ''"running shoes"'', raw = ''running shoes'', matchType = ''PHRASE''\<rparr> \<and>
    isNormalized \<lparr>display = ''buy running shoes online'', raw = ''buy running shoes online'',
                  matchType = ''BROAD''\<rparr> \<and>
    negativeBlocksPositive
      (Some \<lparr>display = ''"running shoes"'', raw = ''running shoes'', matchType = ''PHRASE''\<rparr>)
      (Some \<lparr>display = ''buy running shoes online'', raw = ''buy running shoes online'',
             matchType = ''BROAD''\<rparr>) = True \<and>
    negativeBlocksPositive_single
      (Some \<lparr>display = ''"running shoes"'', raw = ''running shoes'', matchType = ''PHRASE''\<rparr>)
      (Some \<lparr>display = ''buy running shoes online'', raw = ''buy running shoes online'',
             matchType = ''BROAD''\<rparr>) = Inr True\<close>
proof -
  let ?n = \<open>\<lparr>display = ''"running shoes"'', raw = ''running shoes'', matchType = ''PHRASE''\<rparr>\<close>
  let ?p = \<open>\<lparr>display = ''buy running shoes online'', raw = ''buy running shoes online'',
              matchType = ''BROAD''\<rparr>\<close>
  have n: "isNormalized ?n" by code_simp
  have p: "isNormalized ?p" by code_simp
  have s: "sublist '' running shoes '' '' buy running shoes online ''" by code_simp
  show ?thesis
    using phrase_negative_blocks [OF n p] n p s by simp
qed

text \<open>
  C3. For normalized keywords and a negative keyword of match type BROAD, the negative
  blocks the positive if and only if every token of the negative's raw text is one of
  the tokens of the positive's raw text, whatever their order and position; a negative
  text without tokens would be blocked vacuously, the inclusion being true of the empty
  set. Both scripts.
\<close>

theorem broad_negative_blocks:
  assumes "isNormalized negative" and "isNormalized positive"
    and "matchType negative = ''BROAD''"
  shows "negativeBlocksPositive (Some negative) (Some positive) =
           (set (wsTokens (raw negative)) \<subseteq> set (wsTokens (raw positive))) \<and>
         negativeBlocksPositive_single (Some negative) (Some positive) =
           Inr (set (wsTokens (raw negative)) \<subseteq> set (wsTokens (raw positive)))"
proof -
  have "cleanText (raw negative)" "cleanText (raw positive)"
    using assms(1,2) by (simp_all add: isNormalized_def)
  then show ?thesis
    using assms(3)
    by (simp add: negativeBlocksPositive_def negativeBlocksPositive_single_def
        hasAllTokens_clean hasAllTokens_single_clean)
qed

theorem broad_negative_blocks_witness:
  \<open>isNormalized \<lparr>display = ''red shoes'', raw = ''red shoes'', matchType = ''BROAD''\<rparr> \<and>
    isNormalized \<lparr>display = ''"shoes red cheap"'', raw = ''shoes red cheap'',
                  matchType = ''PHRASE''\<rparr> \<and>
    negativeBlocksPositive
      (Some \<lparr>display = ''red shoes'', raw = ''red shoes'', matchType = ''BROAD''\<rparr>)
      (Some \<lparr>display = ''"shoes red cheap"'', raw = ''shoes red cheap'',
             matchType = ''PHRASE''\<rparr>) = True \<and>
    negativeBlocksPositive_single
      (Some \<lparr>display = ''red shoes'', raw = ''red shoes'', matchType = ''BROAD''\<rparr>)
      (Some \<lparr>display = ''"shoes red cheap"'', raw = ''shoes red cheap'',
             matchType = ''PHRASE''\<rparr>) = Inr True\<close>
proof -
  let ?n = \<open>\<lparr>display = ''red shoes'', raw = ''red shoes'', matchType = ''BROAD''\<rparr>\<close>
  let ?p = \<open>\<lparr>display = ''"shoes red cheap"'', raw = ''shoes red cheap'', matchType = ''PHRASE''\<rparr>\<close>
  have n: "isNormalized ?n" by code_simp
  have p: "isNormalized ?p" by code_simp
  have s: "set (wsTokens ''red shoes'') \<subseteq> set (wsTokens ''shoes red cheap'')" by code_simp
  show ?thesis
    using broad_negative_blocks [OF n p] n p s by simp
qed

section \<open>The normalizer: properties\<close>

text \<open>
  C7 (as the scripts have it). \<open>normalizeKeyword\<close> returns \<open>null\<close> if and only if the text
  is not a string, is empty or is white space only, or the match type is not a string or
  is empty, or nothing but white space is left of the text once wrappers and modifiers
  are removed. A match type that cannot be parsed is no reason for \<open>null\<close>: the keyword
  is kept with match type BROAD.
\<close>

theorem normalizeKeyword_invalid_iff:
  "(normalizeKeyword (Some t) (Some m) = None \<longleftrightarrow>
      blank t \<or> m = [] \<or> blank (stripModifiers (unwrapped t m))) \<and>
   (normalizeKeyword_single (Some t) (Some m) = None \<longleftrightarrow>
      blank t \<or> m = [] \<or> blank (stripModifiers_single (unwrapped_single t m))) \<and>
   normalizeKeyword None mt = None \<and> normalizeKeyword text None = None \<and>
   normalizeKeyword_single None mt = None \<and> normalizeKeyword_single text None = None"
proof -
  have e: "t = [] \<Longrightarrow> blank t" by (simp add: blank_def)
  show ?thesis
    using e
    by (auto simp: normalizeKeyword_def normalizeKeyword_single_def Let_def
        trim_empty_iff squeeze_empty_iff split: option.splits)
qed

theorem normalizeKeyword_invalid_witness:
  "blank (stripModifiers (unwrapped ''[ + ]'' ''EXACT'')) \<and>
   normalizeKeyword (Some ''[ + ]'') (Some ''EXACT'') = None \<and>
   \<not> blank (stripModifiers_single (unwrapped_single ''[ + ]'' ''EXACT'')) \<and>
   normalizeKeyword_single (Some ''[ + ]'') (Some ''EXACT'') \<noteq> None"
proof -
  have b: "blank (stripModifiers (unwrapped ''[ + ]'' ''EXACT''))" by code_simp
  have c: "\<not> blank (stripModifiers_single (unwrapped_single ''[ + ]'' ''EXACT''))" by code_simp
  have d: "\<not> blank ''[ + ]''" by code_simp
  show ?thesis
    using normalizeKeyword_invalid_iff [where t = "''[ + ]''" and m = "''EXACT''"] b c d
    by simp
qed

theorem unparseable_matchType_is_kept_as_broad:
  "\<not> parseableMatchType ''FOO'' \<and>
   normalizeKeyword (Some ''shoes'') (Some ''FOO'') =
     Some \<lparr>display = ''shoes'', raw = ''shoes'', matchType = ''BROAD''\<rparr> \<and>
   normalizeKeyword_single (Some ''shoes'') (Some ''FOO'') =
     Some \<lparr>display = ''shoes'', raw = ''shoes'', matchType = ''BROAD''\<rparr>"
  by code_simp




text \<open>
  C5, at the input where the single-account script breaks it. For the keyword text
  \<open>c++ tutorial\<close> with match type BROAD the MCC script keeps the text, since none of
  its words begins with \<open>+\<close>. The regular expression of the single-account script
  removes the first \<open>+\<close> of \<open>c++\<close>, a sign that is not prepended to a word, so
  the two \<open>normalizeKeyword\<close> functions return different keywords. Where \<open>+\<close>
  stands only as a modifier in front of a word the two functions return the same
  (\<open>normalizeKeyword_agree\<close>), and the two \<open>negativeBlocksPositive\<close> functions
  return the same on all normalized keywords (\<open>blocks_agree\<close>).
\<close>

theorem variants_differ_on_inner_plus:
  "normalizeKeyword (Some ''c++ tutorial'') (Some ''BROAD'') =
     Some \<lparr>display = ''c++ tutorial'', raw = ''c++ tutorial'', matchType = ''BROAD''\<rparr> \<and>
   normalizeKeyword_single (Some ''c++ tutorial'') (Some ''BROAD'') =
     Some \<lparr>display = ''c+ tutorial'', raw = ''c+ tutorial'', matchType = ''BROAD''\<rparr> \<and>
   normalizeKeyword (Some ''c++ tutorial'') (Some ''BROAD'')
     \<noteq> normalizeKeyword_single (Some ''c++ tutorial'') (Some ''BROAD'')"
  by code_simp


section \<open>The analyzer: properties\<close>

text \<open>
  C4 (as the scripts have it). One call of \<open>checkLevelForConflicts\<close>, that is one list of
  negatives checked against the positives of one ad group, adds at most one row for each
  entry of the list: a row for exactly the entries that block at least one of the
  positives, in the order of the list, with the display texts of the blocked positives
  joined by comma and space in the order in which they stand in the ad group, nothing
  removed and nothing sorted. A run of the analyzer returns these rows for every ad group
  that has positives, so the same negative and location come back once for every such ad
  group (and once for every repetition of the negative in its list).
\<close>

theorem conflict_rows_per_entry_and_ad_group:
  "checkLevelForConflicts out ns ps loc = out @ levelRows ns ps loc \<and>
   findConflicts c =
     concat (map (\<lambda>(cid, campaign). campaignRows c campaign) (forIn (campaigns c)))"
  using checkLevelForConflicts_eq findConflicts_eq by simp

theorem conflict_rows_witness:
  "checkLevelForConflicts []
     [\<lparr>display = ''hats'', raw = ''hats'', matchType = ''BROAD''\<rparr>,
      \<lparr>display = ''shoes'', raw = ''shoes'', matchType = ''BROAD''\<rparr>]
     [\<lparr>display = ''red shoes'', raw = ''red shoes'', matchType = ''BROAD''\<rparr>,
      \<lparr>display = ''blue shoes'', raw = ''blue shoes'', matchType = ''BROAD''\<rparr>,
      \<lparr>display = ''red shoes'', raw = ''red shoes'', matchType = ''BROAD''\<rparr>]
     ''Campaign: Summer''
   = [[''shoes'', ''Campaign: Summer'', ''red shoes, blue shoes, red shoes'']]"
proof -
  let ?ns = "[\<lparr>display = ''hats'', raw = ''hats'', matchType = ''BROAD''\<rparr>,
              \<lparr>display = ''shoes'', raw = ''shoes'', matchType = ''BROAD''\<rparr>]"
  let ?ps = "[\<lparr>display = ''red shoes'', raw = ''red shoes'', matchType = ''BROAD''\<rparr>,
              \<lparr>display = ''blue shoes'', raw = ''blue shoes'', matchType = ''BROAD''\<rparr>,
              \<lparr>display = ''red shoes'', raw = ''red shoes'', matchType = ''BROAD''\<rparr>]"
  have e: "levelRows ?ns ?ps ''Campaign: Summer''
             = [[''shoes'', ''Campaign: Summer'', ''red shoes, blue shoes, red shoes'']]"
    by code_simp
  have "checkLevelForConflicts [] ?ns ?ps ''Campaign: Summer''
          = [] @ levelRows ?ns ?ps ''Campaign: Summer''"
    using conflict_rows_per_entry_and_ad_group
      [where out = "[]" and ns = "?ns" and ps = "?ps" and loc = "''Campaign: Summer''"
         and c = emptyCache]
    by (rule conjunct1)
  then show ?thesis by (simp only: e append_Nil)
qed

theorem same_negative_and_location_twice:
  \<open>analyzeAccount exampleSource =
     Some [[''shoes'', ''Campaign: Summer'', ''[shoes]''],
           [''shoes'', ''Campaign: Summer'', ''red shoes''],
           [''"red"'', ''Shared List: L (Applied to Campaign: Summer)'', ''red shoes'']] \<and>
   recordsFor ''shoes'' ''Campaign: Summer''
     [[''shoes'', ''Campaign: Summer'', ''[shoes]''],
      [''shoes'', ''Campaign: Summer'', ''red shoes''],
      [''"red"'', ''Shared List: L (Applied to Campaign: Summer)'', ''red shoes'']]
   = [[''shoes'', ''Campaign: Summer'', ''[shoes]''],
      [''shoes'', ''Campaign: Summer'', ''red shoes'']]\<close>
  by code_simp

text \<open>
  C9. An ad group without positives adds no row to the result, and no negative is checked
  against it: the loop body returns the rows it was given (in the single-account script
  without the TypeError that a check against a \<open>null\<close> entry would raise), and the whole
  run returns the same with such ad groups taken out of the cache. Both scripts.
\<close>

theorem ad_group_without_positives_is_skipped:
  "(positives adGroup = [] \<longrightarrow> checkAdGroup c campaign adGroup out = out) \<and>
   findConflicts (dropEmptyAdGroups c) = findConflicts c \<and>
   (positives adGroup' = [] \<longrightarrow> checkAdGroup_single c' campaign' adGroup' out = Inr out) \<and>
   findConflicts_single (dropEmptyAdGroups_single c') = findConflicts_single c'"
  using checkAdGroup_no_positives findConflicts_dropEmpty checkAdGroup_single_no_positives
    findConflicts_single_dropEmpty by blast

theorem ad_group_without_positives_witness:
  "checkAdGroup
     \<lparr>campaigns = [], sharedLists = [],
      accountNegatives = [\<lparr>display = ''shoes'', raw = ''shoes'', matchType = ''BROAD''\<rparr>]\<rparr>
     \<lparr>cName = Some ''Summer'', adGroups = [],
      cNegatives = [\<lparr>display = ''[shoes]'', raw = ''shoes'', matchType = ''EXACT''\<rparr>],
      sharedListNegatives = []\<rparr>
     \<lparr>agName = Some ''Men'', positives = [],
      agNegatives = [\<lparr>display = ''shoes'', raw = ''shoes'', matchType = ''BROAD''\<rparr>]\<rparr>
     [[''a'', ''b'', ''c'']]
   = [[''a'', ''b'', ''c'']] \<and>
   checkAdGroup_single
     \<lparr>campaigns_single = [], sharedLists_single = []\<rparr>
     \<lparr>cName = Some ''Summer'', adGroups = [], cNegatives = [None], sharedListNegatives = []\<rparr>
     \<lparr>agName = Some ''Men'', positives = [], agNegatives = [None]\<rparr>
     [[''a'', ''b'', ''c'']]
   = Inr [[''a'', ''b'', ''c'']]"
  using ad_group_without_positives_is_skipped
    [where adGroup = "\<lparr>agName = Some ''Men'', positives = [],
             agNegatives = [\<lparr>display = ''shoes'', raw = ''shoes'', matchType = ''BROAD''\<rparr>]\<rparr>"
       and adGroup' = "\<lparr>agName = Some ''Men'', positives = [], agNegatives = [None]\<rparr>"
       and c = "\<lparr>campaigns = [], sharedLists = [],
             accountNegatives = [\<lparr>display = ''shoes'', raw = ''shoes'', matchType = ''BROAD''\<rparr>]\<rparr>"
       and campaign = "\<lparr>cName = Some ''Summer'', adGroups = [],
             cNegatives = [\<lparr>display = ''[shoes]'', raw = ''shoes'', matchType = ''EXACT''\<rparr>],
             sharedListNegatives = []\<rparr>"
       and c' = "\<lparr>campaigns_single = [], sharedLists_single = []\<rparr>"
       and campaign' = "\<lparr>cName = Some ''Summer'', adGroups = [], cNegatives = [None],
             sharedListNegatives = []\<rparr>"
       and out = "[[''a'', ''b'', ''c'']]"]
  by simp

section \<open>The cache builder: properties\<close>

text \<open>
  C6 (as the scripts have it). \<open>buildDataCache\<close> returns \<open>null\<close> if and only if one of its
  fetches fails as a whole: the ad group keywords, the campaign negatives, the shared
  lists, their associations, or (MCC script) the account negatives. What the earlier
  fetches gathered is dropped with the cache, and the account is not analyzed. A failure
  inside the rows of a fetch never gives \<open>null\<close>.
\<close>

theorem buildDataCache_null_iff_a_fetch_fails:
  "(buildDataCache ds = None \<longleftrightarrow>
      isl (keywordView ds) \<or> isl (campaignCriterion ds) \<or> isl (sharedCriterion ds)
        \<or> isl (campaignSharedSet ds) \<or> isl (customerNegativeCriterion ds)) \<and>
   (analyzeAccount ds = None \<longleftrightarrow> buildDataCache ds = None) \<and>
   (buildDataCache_single ds = None \<longleftrightarrow>
      isl (keywordView ds) \<or> isl (campaignCriterion ds) \<or> isl (sharedCriterion ds)
        \<or> isl (campaignSharedSet ds)) \<and>
   (analyzeAccount_single ds = None \<longleftrightarrow> buildDataCache_single ds = None)"
proof -
  have "analyzeAccount ds = None \<longleftrightarrow> buildDataCache ds = None"
    by (simp add: analyzeAccount_def split: option.splits)
  moreover have "analyzeAccount_single ds = None \<longleftrightarrow> buildDataCache_single ds = None"
    by (simp add: analyzeAccount_single_def split: option.splits)
  ultimately show ?thesis
    using buildDataCache_None_iff [of ds] buildDataCache_single_None_iff [of ds] by simp
qed

theorem all_fetches_succeed_witness:
  "buildDataCache exampleSource \<noteq> None \<and> analyzeAccount exampleSource \<noteq> None \<and>
   buildDataCache_single exampleSource \<noteq> None \<and> analyzeAccount_single exampleSource \<noteq> None"
  using buildDataCache_null_iff_a_fetch_fails [of exampleSource]
  by (simp add: exampleSource_def)

theorem campaign_negative_fetch_failure_gives_null:
  "\<not> isl (keywordView (exampleSource\<lparr>campaignCriterion := Inl FetchError\<rparr>)) \<and>
   buildDataCache (exampleSource\<lparr>campaignCriterion := Inl FetchError\<rparr>) = None \<and>
   analyzeAccount (exampleSource\<lparr>campaignCriterion := Inl FetchError\<rparr>) = None \<and>
   buildDataCache_single (exampleSource\<lparr>campaignCriterion := Inl FetchError\<rparr>) = None \<and>
   analyzeAccount_single (exampleSource\<lparr>campaignCriterion := Inl FetchError\<rparr>) = None"
  by code_simp

text \<open>
  C8, at the input where the single-account script breaks it. The keyword row with the
  text \<open>[]\<close> and match type EXACT is not left out of the cache of the single-account
  script: \<open>null\<close> is stored among the positives of its ad group, and the analysis of the
  account ends with a TypeError. The MCC script leaves the row out
  (\<open>buildDataCache_normalized\<close>).
\<close>

theorem single_account_cache_keeps_null:
  "buildDataCache_single exampleSourceBrackets =
     Some \<lparr>campaigns_single =
             [(''7'',
               \<lparr>cName = Some ''Summer'',
                adGroups =
                  [(''1'', \<lparr>agName = Some ''Men'',
                            positives = [Some \<lparr>display = ''[shoes]'', raw = ''shoes'',
                                                matchType = ''EXACT''\<rparr>],
                            agNegatives = []\<rparr>),
                   (''2'', \<lparr>agName = Some ''Women'',
                            positives = [Some \<lparr>display = ''red shoes'', raw = ''red shoes'',
                                                matchType = ''BROAD''\<rparr>,
                                         None],
                            agNegatives = []\<rparr>)],
                cNegatives = [Some \<lparr>display = ''shoes'', raw = ''shoes'', matchType = ''BROAD''\<rparr>],
                sharedListNegatives = [\<lparr>listId = ''55'', listName = ''L''\<rparr>]\<rparr>)],
           sharedLists_single =
             [(''55'', \<lparr>slName = ''L'',
                        slNegatives = [Some \<lparr>display = [CHR 0x22, CHR ''r'', CHR ''e'', CHR ''d'',
                                                         CHR 0x22],
                                              raw = ''red'', matchType = ''PHRASE''\<rparr>]\<rparr>)]\<rparr> \<and>
   analyzeAccount_single exampleSourceBrackets = Some (Inl TypeError) \<and>
   analyzeAccount exampleSourceBrackets = analyzeAccount exampleSource"
  by code_simp

end
